theory Spec2Isabelle
  imports Main "HOL-Library.Sublist"
begin

section \<open>Errors raised by the modelled code\<close>

text \<open>
  Every \<^verbatim>\<open>throw\<close> of the modelled TypeScript is a value of this type. \<open>Error\<close> is the
  plain \<^verbatim>\<open>Error\<close> with its message, \<open>RangeError\<close> is the engine's "Maximum call stack
  size exceeded", and \<open>IOError\<close> stands for a rejection coming from the host (file system,
  document API, service client).
\<close>

datatype error =
    Error string
  | ToolkitError string
  | RangeError
  | ProjectSizeExceededError
  | FileSizeExceededError
  | NoActiveFileError
  | IOError string

section \<open>EC2 remote connection helper: \<^verbatim>\<open>getRemoveLinesCommand\<close>\<close>

text \<open>\<^verbatim>\<open>export type Ec2OS = 'Amazon Linux' | 'Ubuntu' | 'macOS'\<close>\<close>

datatype Ec2OS = Amazon_Linux | Ubuntu | macOS

abbreviation squote :: char where "squote \<equiv> CHR 0x27"
abbreviation dquote :: char where "dquote \<equiv> CHR 0x22"
abbreviation backslash :: char where "backslash \<equiv> CHR 0x5C"
abbreviation newline :: char where "newline \<equiv> CHR 0x0A"
abbreviation carriage_return :: char where "carriage_return \<equiv> CHR 0x0D"

definition isLinux :: "Ec2OS \<Rightarrow> bool" where
  "isLinux os = (os = Amazon_Linux \<or> os = Ubuntu)"

text \<open>\<^verbatim>\<open>pattern.includes('/')\<close>: the searched string is the single character given.\<close>

definition includes_str :: "string \<Rightarrow> char \<Rightarrow> bool" where
  "includes_str s c = (c \<in> set s)"

definition getRemoveLinesCommand :: "string \<Rightarrow> Ec2OS \<Rightarrow> string \<Rightarrow> error + string" where
  "getRemoveLinesCommand pattern hostOS filepath =
     (if includes_str pattern CHR ''/''
      then Inl (ToolkitError (''ec2: cannot match pattern containing '' @ [squote] @ ''/''
                                @ [squote] @ '', given: '' @ pattern))
      else Inr (''sed -i'' @ (if isLinux hostOS then [] else '' '' @ [squote, squote])
                  @ '' /'' @ pattern @ ''/d '' @ filepath))"

section \<open>File zipping utility: \<^verbatim>\<open>ZipUtil.rewriteDiff\<close>\<close>

text \<open>
  \<^verbatim>\<open>String.prototype.split\<close> with a one-character separator: a string with \<open>n\<close> occurrences
  of the separator gives \<open>n + 1\<close> pieces, the empty string gives one empty piece.
\<close>

fun split_str :: "char \<Rightarrow> string \<Rightarrow> string list" where
  "split_str sep [] = [[]]"
| "split_str sep (c # cs) =
     (if c = sep then [] # split_str sep cs
      else (case split_str sep cs of
              [] \<Rightarrow> [[c]]
            | l # ls \<Rightarrow> (c # l) # ls))"

text \<open>\<^verbatim>\<open>Array.prototype.join\<close>.\<close>

fun join :: "string \<Rightarrow> string list \<Rightarrow> string" where
  "join sep [] = []"
| "join sep [l] = l"
| "join sep (l # ls) = l @ sep @ join sep ls"

text \<open>
  \<^verbatim>\<open>line.replace(/\\\\/g, '/')\<close>: the regular expression matches two consecutive backslash
  characters; matches are taken left to right and do not overlap.
\<close>

fun replace_double_backslash :: "string \<Rightarrow> string" where
  "replace_double_backslash (a # b # cs) =
     (if a = backslash \<and> b = backslash then CHR ''/'' # replace_double_backslash cs
      else a # replace_double_backslash (b # cs))"
| "replace_double_backslash cs = cs"

text \<open>
  \<^verbatim>\<open>line.replace(/("a\/[^"]*)/g, (match, p1) => p1)\<close> and the same with \<^verbatim>\<open>b\<close>: a match starts
  at a double quote followed by the letter and a slash and extends over the longest run of
  characters that are not double quotes; it is replaced by its first capture group, and
  scanning resumes after the match.
\<close>

function replace_quoted_path :: "char \<Rightarrow> string \<Rightarrow> string" where
  "replace_quoted_path x [] = []"
| "replace_quoted_path x (c # cs) =
     (if prefix [dquote, x, CHR ''/''] (c # cs)
      then (let rest = drop 2 cs;
                p1 = [dquote, x, CHR ''/''] @ takeWhile (\<lambda>d. d \<noteq> dquote) rest
            in p1 @ replace_quoted_path x (dropWhile (\<lambda>d. d \<noteq> dquote) rest))
      else c # replace_quoted_path x cs)"
  by pat_completeness auto
termination
  by (relation "measure (\<lambda>(x, s). length s)")
     (auto simp: less_Suc_eq_le intro: order_trans [OF length_dropWhile_le])

definition rewriteLine :: "string \<Rightarrow> string" where
  "rewriteLine line0 =
     (let line1 = replace_double_backslash line0;
          line2 = replace_quoted_path CHR ''a'' line1;
          line3 = replace_quoted_path CHR ''b'' line2;
          line4 = filter (\<lambda>c. c \<noteq> dquote) line3
      in line4)"

definition rewriteDiff :: "string \<Rightarrow> string" where
  "rewriteDiff inputStr =
     (let lines = split_str newline inputStr;
          rewrittenLines = map rewriteLine (take 5 lines);
          outputLines = rewrittenLines @ drop 5 lines;
          outputStr = join [newline] outputLines
      in outputStr)"

text \<open>
  A sample diff of six lines for concrete runs: the first line has a quoted path with one
  pair, two pairs in a row and a run of three backslashes followed by a single one; the
  third line has two backslashes separated by a double quote.
\<close>

definition sampleDiff :: string where
  "sampleDiff =
     [dquote] @ ''a'' @ [backslash, backslash] @ ''b''
       @ [backslash, backslash, backslash, backslash] @ ''c''
       @ [backslash, backslash, backslash] @ ''d'' @ [backslash] @ ''e'' @ [dquote, newline]
     @ ''hello'' @ [newline]
     @ [backslash, dquote, backslash, newline]
     @ ''3'' @ [newline]
     @ [newline]
     @ [dquote, backslash, backslash]"

section \<open>Chat session: \<^verbatim>\<open>ChatSession\<close>\<close>

subsection \<open>Message types of the streaming client\<close>

text \<open>
  The message types come from the streaming client package; the records below carry the
  fields the session code reads or writes, each optional as in the client's declarations.
  Field names shared by several records are written qualified, for example
  \<open>ToolUse.toolUseId\<close>. The record \<open>ToolResultContentBlock\<close> holds the object literal
  \<^verbatim>\<open>{ type: 'text', text: ... }\<close>.
\<close>

record ToolUse =
  toolUseId :: "string option"
  name :: "string option"
  input :: "string option"

record ToolResultContentBlock =
  type :: string
  text_field :: string

record ToolResult =
  toolUseId :: "string option"
  content :: "ToolResultContentBlock list option"
  status :: "string option"

type_synonym Tool = string

record UserInputMessageContext =
  editorState :: "string option"
  toolResults :: "ToolResult list option"
  tools :: "Tool list option"

record AssistantResponseMessage =
  messageId :: "string option"
  content :: "string option"
  toolUses :: "ToolUse list option"

record UserInputMessage =
  content :: "string option"
  userInputMessageContext :: "UserInputMessageContext option"
  userIntent :: "string option"

text \<open>\<^verbatim>\<open>ChatMessage\<close> is a tagged union of the client package.\<close>

datatype ChatMessage =
    UserInputMessageMember UserInputMessage
  | AssistantResponseMessageMember AssistantResponseMessage
  | UnknownMember

text \<open>
  The fields of \<^verbatim>\<open>ChatSession\<close> that the history code touches: \<open>toolUse\<close> is the private
  field \<^verbatim>\<open>_toolUse\<close> and \<open>chatHistory\<close> is the private array \<^verbatim>\<open>_chatHistory\<close>, which the
  getter \<^verbatim>\<open>chatHistory\<close> returns.
\<close>

record ChatSession =
  sessionId :: "string option"
  toolUse :: "ToolUse option"
  chatHistory :: "ChatMessage list"

text \<open>
  A failing call gives the error together with the state at the moment of the throw.
\<close>

type_synonym ('s, 'a) outcome = "(error \<times> 's) + 'a"

subsection \<open>\<^verbatim>\<open>pushToChatHistory\<close> and \<^verbatim>\<open>formatChatHistoryMessage\<close>\<close>

text \<open>The object \<^verbatim>\<open>{}\<close> that spreading an undefined context yields.\<close>

definition emptyContext :: UserInputMessageContext where
  "emptyContext = \<lparr> editorState = None, toolResults = None, tools = None \<rparr>"

definition formatChatHistoryMessage :: "ChatMessage \<Rightarrow> ChatMessage" where
  "formatChatHistoryMessage message =
     (case message of
        UserInputMessageMember userInputMessage \<Rightarrow>
          UserInputMessageMember
            (userInputMessage
               \<lparr> userInputMessageContext :=
                    Some ((case userInputMessageContext userInputMessage of
                             None \<Rightarrow> emptyContext
                           | Some c \<Rightarrow> c) \<lparr> tools := None \<rparr>) \<rparr>)
      | _ \<Rightarrow> message)"

definition pushToChatHistory :: "ChatSession \<Rightarrow> ChatMessage option \<Rightarrow> ChatSession" where
  "pushToChatHistory this message =
     (case message of
        None \<Rightarrow> this
      | Some m \<Rightarrow> this \<lparr> chatHistory := chatHistory this @ [formatChatHistoryMessage m] \<rparr>)"

subsection \<open>\<^verbatim>\<open>fixHistory\<close>\<close>

definition MAX_CONVERSATION_STATE_HISTORY_LEN :: nat where
  "MAX_CONVERSATION_STATE_HISTORY_LEN = 100"

text \<open>
  The setter \<^verbatim>\<open>private set chatHistory(chatHistory) { this.chatHistory = chatHistory }\<close>
  assigns to the accessor it defines, so its body calls the setter again and no field is
  ever written. The first argument is the number of call-stack frames still available;
  when none is left the engine raises \<open>RangeError\<close>.
\<close>

fun chatHistory_setter :: "nat \<Rightarrow> ChatSession \<Rightarrow> ChatMessage list \<Rightarrow> error + ChatSession" where
  "chatHistory_setter 0 this h = Inl RangeError"
| "chatHistory_setter (Suc stack) this h = chatHistory_setter stack this h"

text \<open>\<^verbatim>\<open>Array.prototype.findIndex\<close>; \<open>None\<close> stands for the result \<open>-1\<close>.\<close>

fun findIndex :: "('a \<Rightarrow> bool) \<Rightarrow> 'a list \<Rightarrow> nat option" where
  "findIndex P [] = None"
| "findIndex P (x # xs) = (if P x then Some 0 else map_option Suc (findIndex P xs))"

text \<open>The callback given to \<^verbatim>\<open>findIndex\<close> (lines 98 to 105).\<close>

definition noToolResults :: "UserInputMessageContext option \<Rightarrow> bool" where
  "noToolResults ctx =
     (case ctx of
        None \<Rightarrow> True
      | Some c \<Rightarrow> (case toolResults c of None \<Rightarrow> True | Some rs \<Rightarrow> length rs = 0))"

definition isStartingUserMessage :: "ChatMessage \<Rightarrow> bool" where
  "isStartingUserMessage message =
     (case message of
        UserInputMessageMember u \<Rightarrow>
          noToolResults (userInputMessageContext u) \<and> UserInputMessage.content u \<noteq> Some []
      | _ \<Rightarrow> False)"

text \<open>The edge case of lines 117 to 125: tool results of the next message are abandoned.\<close>

definition abandonToolResults :: "UserInputMessage option \<Rightarrow> UserInputMessage option" where
  "abandonToolResults nextMessage =
     (case nextMessage of
        None \<Rightarrow> None
      | Some m \<Rightarrow>
          (case userInputMessageContext m of
             None \<Rightarrow> Some m
           | Some c \<Rightarrow>
               (case toolResults c of
                  None \<Rightarrow> Some m
                | Some rs \<Rightarrow>
                    if length rs > 0
                    then Some (m \<lparr> content :=
                                     Some ''The conversation history has overflowed, clearing state'',
                                   userInputMessageContext := Some (c \<lparr> toolResults := None \<rparr>) \<rparr>)
                    else Some m)))"

text \<open>Lines 96 to 127: trimming a history longer than the cap.\<close>

definition trimHistory ::
  "nat \<Rightarrow> ChatSession \<Rightarrow> UserInputMessage option
     \<Rightarrow> (ChatSession \<times> UserInputMessage option, ChatSession \<times> UserInputMessage option) outcome"
where
  "trimHistory stack this nextMessage =
     (if length (chatHistory this) > MAX_CONVERSATION_STATE_HISTORY_LEN
      then (case findIndex isStartingUserMessage (drop 1 (chatHistory this)) of
              Some indexToKeep \<Rightarrow>
                (let actualIndex = indexToKeep + 1
                 in case chatHistory_setter stack this (drop actualIndex (chatHistory this)) of
                      Inl e \<Rightarrow> Inl (e, this, nextMessage)
                    | Inr this' \<Rightarrow> Inr (this', nextMessage))
            | None \<Rightarrow>
                (case chatHistory_setter stack this [] of
                   Inl e \<Rightarrow> Inl (e, this, nextMessage)
                 | Inr this' \<Rightarrow> Inr (this', abandonToolResults nextMessage)))
      else Inr (this, nextMessage))"

text \<open>\<^verbatim>\<open>this.chatHistory[this.chatHistory.length - 1]\<close>: undefined on an empty array.\<close>

definition lastMessage :: "ChatSession \<Rightarrow> ChatMessage option" where
  "lastMessage this = (if chatHistory this = [] then None else Some (last (chatHistory this)))"

text \<open>Lines 129 to 134: one trailing user message is popped.\<close>

definition dropTrailingUserMessage :: "ChatSession \<Rightarrow> ChatSession" where
  "dropTrailingUserMessage this =
     (case lastMessage this of
        Some (UserInputMessageMember u) \<Rightarrow> this \<lparr> chatHistory := butlast (chatHistory this) \<rparr>
      | _ \<Rightarrow> this)"

text \<open>Lines 136 to 159: cancelled tool results for the next message.\<close>

definition cancelledToolResult :: "ToolUse \<Rightarrow> ToolResult" where
  "cancelledToolResult use =
     \<lparr> ToolResult.toolUseId = ToolUse.toolUseId use,
       ToolResult.content =
         Some [\<lparr> type = ''text'', text_field = ''Tool use was cancelled by the user'' \<rparr>],
       status = Some ''error'' \<rparr>"

definition addCancelledToolResults ::
  "ChatSession \<Rightarrow> UserInputMessage option \<Rightarrow> UserInputMessage option"
where
  "addCancelledToolResults this nextMessage =
     (case lastMessage this of
        Some (AssistantResponseMessageMember a) \<Rightarrow>
          (case toolUses a of
             None \<Rightarrow> nextMessage
           | Some uses \<Rightarrow>
               if length uses > 0
               then (case nextMessage of
                       None \<Rightarrow> None
                     | Some m \<Rightarrow>
                         (case userInputMessageContext m of
                            None \<Rightarrow> Some m
                          | Some c \<Rightarrow>
                              if noToolResults (Some c)
                              then Some (m \<lparr> userInputMessageContext :=
                                               Some (c \<lparr> toolResults :=
                                                          Some (map cancelledToolResult uses) \<rparr>) \<rparr>)
                              else Some m))
               else nextMessage)
      | _ \<Rightarrow> nextMessage)"

definition fixHistory ::
  "nat \<Rightarrow> ChatSession \<Rightarrow> UserInputMessage option
     \<Rightarrow> (ChatSession \<times> UserInputMessage option, ChatSession \<times> UserInputMessage option) outcome"
where
  "fixHistory stack this nextMessage =
     (case trimHistory stack this nextMessage of
        Inl e \<Rightarrow> Inl e
      | Inr (this1, next1) \<Rightarrow>
          (let this2 = dropTrailingUserMessage this1
           in Inr (this2, addCancelledToolResults this2 next1)))"

subsection \<open>Sample messages for concrete runs\<close>

definition userText :: "string \<Rightarrow> ChatMessage" where
  "userText t =
     UserInputMessageMember
       \<lparr> content = Some t, userInputMessageContext = None, userIntent = None \<rparr>"

definition assistantText :: "string \<Rightarrow> ChatMessage" where
  "assistantText t =
     AssistantResponseMessageMember \<lparr> messageId = None, content = Some t, toolUses = None \<rparr>"

definition sessionWith :: "ChatMessage list \<Rightarrow> ChatSession" where
  "sessionWith h = \<lparr> sessionId = None, toolUse = None, chatHistory = h \<rparr>"

section \<open>File zipping utility: size limits of \<^verbatim>\<open>ZipUtil\<close>\<close>

text \<open>
  Sizes and line counts are natural numbers: they are non-negative integers, which the
  number type of the source adds exactly in the range a payload can reach. A file's
  content is the byte sequence of its UTF-8 encoding, so \<^verbatim>\<open>Buffer.from(fileContent).length\<close>
  is its \<open>length\<close>; the line separators are ASCII, so splitting into lines is the same
  on bytes as on the source's strings.
\<close>

datatype CodeAnalysisScope = FILE_AUTO | FILE_ON_DEMAND | PROJECT

datatype FeatureUseCase = CODE_SCAN | TEST_GENERATION

text \<open>
  The two payload limits are constants of \<^verbatim>\<open>CodeWhispererConstants\<close>, a module that is not
  among the sources; they are parameters of the model.
\<close>

record Limits =
  fileScanPayloadSizeLimitBytes :: nat
  projectScanPayloadSizeLimitBytes :: nat

text \<open>
  The fields of \<^verbatim>\<open>ZipUtil\<close> that the modelled methods read or write (the source prefixes
  each with an underscore), a zip stream as the list of entries written to it (entry path
  and content), and the language counter.
\<close>

record ZipUtil =
  pickedSourceFiles :: "string set"
  totalSize :: nat
  totalLines :: nat
  zipDir :: string

type_synonym ZipStream = "(string \<times> string) list"

type_synonym LanguageCount = "string \<rightharpoonup> nat"

definition codeDiffFilePath :: string where
  "codeDiffFilePath = ''codeDiff/code.diff''"

text \<open>\<^verbatim>\<open>content.split(ZipConstants.newlineRegex)\<close> with \<^verbatim>\<open>newlineRegex: /\r?\n/\<close>.\<close>

fun split_newlineRegex :: "string \<Rightarrow> string list" where
  "split_newlineRegex [] = [[]]"
| "split_newlineRegex (c # cs) =
     (if c = newline then [] # split_newlineRegex cs
      else (case cs of
              d # ds \<Rightarrow>
                if c = carriage_return \<and> d = newline then [] # split_newlineRegex ds
                else (case split_newlineRegex cs of
                        [] \<Rightarrow> [[c]]
                      | l # ls \<Rightarrow> (c # l) # ls)
            | [] \<Rightarrow> [[c]]))"

definition getFileScanPayloadSizeLimitInBytes :: "Limits \<Rightarrow> nat" where
  "getFileScanPayloadSizeLimitInBytes limits = fileScanPayloadSizeLimitBytes limits"

definition getProjectScanPayloadSizeLimitInBytes :: "Limits \<Rightarrow> nat" where
  "getProjectScanPayloadSizeLimitInBytes limits = projectScanPayloadSizeLimitBytes limits"

definition reachSizeLimit :: "Limits \<Rightarrow> nat \<Rightarrow> CodeAnalysisScope \<Rightarrow> bool" where
  "reachSizeLimit limits sz scope =
     (if scope = FILE_AUTO \<or> scope = FILE_ON_DEMAND
      then sz > getFileScanPayloadSizeLimitInBytes limits
      else sz > getProjectScanPayloadSizeLimitInBytes limits)"

definition willReachSizeLimit :: "Limits \<Rightarrow> nat \<Rightarrow> nat \<Rightarrow> bool" where
  "willReachSizeLimit limits current adding =
     (let willReachLimit = current + adding > getProjectScanPayloadSizeLimitInBytes limits
      in willReachLimit)"

text \<open>
  \<^verbatim>\<open>incrementCountForLanguage\<close>: the language of a path is looked up through
  \<^verbatim>\<open>path.extname\<close> and \<^verbatim>\<open>runtimeLanguageContext\<close>, which are not among the sources; the
  composed lookup is the parameter \<open>languageOf\<close>.
\<close>

definition incrementCountForLanguage ::
  "(string \<Rightarrow> string option) \<Rightarrow> string \<Rightarrow> LanguageCount \<Rightarrow> LanguageCount"
where
  "incrementCountForLanguage languageOf fsPath languageCount =
     (case languageOf fsPath of
        None \<Rightarrow> languageCount
      | Some language \<Rightarrow>
          if language \<noteq> [] \<and> language \<noteq> ''plaintext''
          then languageCount
                 (language \<mapsto> (case languageCount language of None \<Rightarrow> 0 | Some n \<Rightarrow> n) + 1)
          else languageCount)"

definition processTextFile ::
  "Limits \<Rightarrow> (string \<Rightarrow> string option) \<Rightarrow> ZipUtil \<Rightarrow> ZipStream \<Rightarrow> LanguageCount
     \<Rightarrow> string \<Rightarrow> string \<Rightarrow> string
     \<Rightarrow> (ZipUtil \<times> ZipStream \<times> LanguageCount, ZipUtil \<times> ZipStream \<times> LanguageCount) outcome"
where
  "processTextFile limits languageOf this zipStream languageCount fsPath fileContent zipEntryPath =
     (let fileSize = length fileContent
      in if reachSizeLimit limits (totalSize this) PROJECT
            \<or> willReachSizeLimit limits (totalSize this) fileSize
         then Inl (ProjectSizeExceededError, this, zipStream, languageCount)
         else Inr (this \<lparr> pickedSourceFiles := insert fsPath (pickedSourceFiles this),
                          totalSize := totalSize this + fileSize,
                          totalLines := totalLines this
                                          + length (split_newlineRegex fileContent) \<rparr>,
                   zipStream @ [(zipEntryPath, fileContent)],
                   incrementCountForLanguage languageOf fsPath languageCount))"

text \<open>
  \<^verbatim>\<open>zipFile\<close> awaits the host several times. The answers of the host are collected in a
  record: the text of the document, whether the file lies in a workspace folder and the
  entry paths computed there by \<^verbatim>\<open>path\<close> and \<^verbatim>\<open>vscode.workspace\<close>, the size that
  \<^verbatim>\<open>fs.stat\<close> reports, the directory name \<^verbatim>\<open>getZipDirPath\<close> computes when none is set
  yet, the zip extension constant, and whether writing the archive fails. A failure of
  the host is given by its message and surfaces as \<open>IOError\<close>.
\<close>

record ZipFileHost =
  getTextContent :: "string + string"
  inWorkspaceFolder :: bool
  zipEntryPathOf :: string
  normalizedZipEntryPath :: string
  statSize :: "string + nat"
  freshZipDir :: "FeatureUseCase \<Rightarrow> string"
  codeScanZipExt :: string
  finalizeToFile :: "string option"

definition getZipDirPath :: "ZipFileHost \<Rightarrow> ZipUtil \<Rightarrow> FeatureUseCase \<Rightarrow> ZipUtil \<times> string" where
  "getZipDirPath host this useCase =
     (let this' = (if zipDir this = [] then this \<lparr> zipDir := freshZipDir host useCase \<rparr>
                   else this)
      in (this', zipDir this'))"

definition zipFile ::
  "Limits \<Rightarrow> ZipFileHost \<Rightarrow> ZipUtil \<Rightarrow> string option \<Rightarrow> CodeAnalysisScope
     \<Rightarrow> (ZipUtil, ZipUtil \<times> string \<times> ZipStream) outcome"
where
  "zipFile limits host this uri scope =
     (case uri of
        None \<Rightarrow> Inl (NoActiveFileError, this)
      | Some fsPath \<Rightarrow>
          (case getTextContent host of
             Inl msg \<Rightarrow> Inl (IOError msg, this)
           | Inr text \<Rightarrow>
               (let zipStream = (if inWorkspaceFolder host
                           then [(zipEntryPathOf host, text)]
                                @ (if scope = FILE_ON_DEMAND
                                   then [(codeDiffFilePath,
                                          ''+++ b/'' @ normalizedZipEntryPath host)]
                                   else [])
                           else [(fsPath, text)]);
                    this1 = this \<lparr> pickedSourceFiles := insert fsPath (pickedSourceFiles this) \<rparr>
                in case statSize host of
                     Inl msg \<Rightarrow> Inl (IOError msg, this1)
                   | Inr sz \<Rightarrow>
                       (let this2 = this1 \<lparr> totalSize := totalSize this1 + sz \<rparr>;
                            this3 = this2 \<lparr> totalLines := totalLines this2
                                              + length (split_newlineRegex text) \<rparr>
                        in if reachSizeLimit limits (totalSize this3) scope
                           then Inl (FileSizeExceededError, this3)
                           else (let (this4, dir) = getZipDirPath host this3 CODE_SCAN;
                                     zipFilePath = dir @ codeScanZipExt host
                                 in case finalizeToFile host of
                                      Some msg \<Rightarrow> Inl (IOError msg, this4)
                                    | None \<Rightarrow> Inr (this4, zipFilePath, zipStream))))))"

section \<open>Streaming handler: \<^verbatim>\<open>QCliStreamingHandler\<close>\<close>

text \<open>
  The abort controller is an object with the flag of its signal; \<^verbatim>\<open>abort()\<close> sets the flag.
  The streaming client is opaque and stands by its name.
\<close>

record AbortController =
  aborted :: bool

record QCliStreamingHandler =
  streamingClient :: "string option"
  conversationId :: string
  handlerMessageId :: string
  isStreaming :: bool
  abortController :: "AbortController option"

text \<open>The state the constructor leaves.\<close>

definition newHandler :: QCliStreamingHandler where
  "newHandler = \<lparr> streamingClient = None, conversationId = [], handlerMessageId = [],
                   isStreaming = False, abortController = None \<rparr>"

text \<open>
  What the handler does to the outside: the only call the cancellation logic makes is
  \<^verbatim>\<open>abortController.abort()\<close>.
\<close>

datatype effect = Abort

definition cancelStreaming :: "QCliStreamingHandler \<Rightarrow> QCliStreamingHandler \<times> effect list" where
  "cancelStreaming this =
     (case abortController this of
        Some c \<Rightarrow>
          if isStreaming this
          then (this \<lparr> abortController := Some (c \<lparr> aborted := True \<rparr>) \<rparr>, [Abort])
          else (this, [])
      | None \<Rightarrow> (this, []))"

text \<open>
  \<^verbatim>\<open>processUserPrompt\<close> is an async function: it runs until it awaits, and other calls on
  the handler run before it resumes. A call is therefore a sequence of steps on the shared
  handler, and between two steps it is in one of these control states.
\<close>

datatype control =
    AwaitInitialize
  | AwaitStreamResponse
  | Completed "error option"

text \<open>
  \<^verbatim>\<open>initialize\<close>, resumed with the answer of \<^verbatim>\<open>createCodeWhispererChatStreamingClient\<close> and
  the fresh identifier of \<^verbatim>\<open>randomUUID\<close>; the error is logged and thrown again.
\<close>

definition initialize ::
  "error + string \<Rightarrow> string \<Rightarrow> QCliStreamingHandler \<Rightarrow> error + QCliStreamingHandler"
where
  "initialize created uuid this =
     (case created of
        Inl e \<Rightarrow> Inl e
      | Inr client \<Rightarrow> Inr (this \<lparr> streamingClient := Some client, conversationId := uuid \<rparr>))"

text \<open>
  The \<^verbatim>\<open>finally\<close> block, after the \<^verbatim>\<open>try\<close> body ended with \<open>bodyError\<close> (\<open>None\<close> when it
  ran to its end) and, if it threw, the \<^verbatim>\<open>catch\<close> block ended with \<open>catchError\<close>. The
  \<^verbatim>\<open>catch\<close> block reports the error to the messenger and does not throw it again, so the
  call rejects only if the \<^verbatim>\<open>catch\<close> block itself throws.
\<close>

definition leaveTry ::
  "error option \<Rightarrow> error option \<Rightarrow> QCliStreamingHandler \<Rightarrow> QCliStreamingHandler \<times> control"
where
  "leaveTry bodyError catchError this =
     (this \<lparr> isStreaming := False, abortController := None \<rparr>,
      Completed (case bodyError of None \<Rightarrow> None | Some e \<Rightarrow> catchError))"

text \<open>
  The \<^verbatim>\<open>try\<close> body up to \<^verbatim>\<open>await this.streamResponse(input, tabId)\<close>. \<open>uuid\<close> is the fresh
  message identifier; \<open>messengerError\<close> is an exception of one of the messenger calls, and
  \<open>catchError\<close> one of the \<^verbatim>\<open>catch\<close> block, should the body throw before it awaits.
  \<^verbatim>\<open>streamResponse\<close> throws at once when no streaming client is set.
\<close>

definition enterTry ::
  "string \<Rightarrow> error option \<Rightarrow> error option \<Rightarrow> QCliStreamingHandler
     \<Rightarrow> QCliStreamingHandler \<times> control"
where
  "enterTry uuid messengerError catchError this =
     (let this1 = this \<lparr> isStreaming := True, handlerMessageId := uuid,
                          abortController := Some \<lparr> aborted = False \<rparr> \<rparr>
      in case messengerError of
           Some e \<Rightarrow> leaveTry (Some e) catchError this1
         | None \<Rightarrow>
             if streamingClient this1 = None
             then leaveTry (Some (Error ''Streaming client not initialized''))
                    catchError this1
             else (this1, AwaitStreamResponse))"

text \<open>The call of \<^verbatim>\<open>processUserPrompt\<close>, up to its first await.\<close>

definition processUserPrompt_call ::
  "string \<Rightarrow> error option \<Rightarrow> error option \<Rightarrow> QCliStreamingHandler
     \<Rightarrow> QCliStreamingHandler \<times> control"
where
  "processUserPrompt_call uuid messengerError catchError this =
     (if streamingClient this = None then (this, AwaitInitialize)
      else enterTry uuid messengerError catchError this)"

text \<open>Resuming after \<^verbatim>\<open>await this.initialize()\<close>, which lies before the \<^verbatim>\<open>try\<close>.\<close>

definition resumeAfterInitialize ::
  "error + string \<Rightarrow> string \<Rightarrow> string \<Rightarrow> error option \<Rightarrow> error option
     \<Rightarrow> QCliStreamingHandler \<Rightarrow> QCliStreamingHandler \<times> control"
where
  "resumeAfterInitialize created convUuid uuid messengerError catchError this =
     (case initialize created convUuid this of
        Inl e \<Rightarrow> (this, Completed (Some e))
      | Inr this' \<Rightarrow> enterTry uuid messengerError catchError this')"

text \<open>
  Resuming after \<^verbatim>\<open>await this.streamResponse(...)\<close>: \<open>streamError\<close> is the rejection of the
  stream or an exception of the messenger call that follows it.
\<close>

definition resumeAfterStreamResponse ::
  "error option \<Rightarrow> error option \<Rightarrow> QCliStreamingHandler \<Rightarrow> QCliStreamingHandler \<times> control"
where
  "resumeAfterStreamResponse streamError catchError this = leaveTry streamError catchError this"

text \<open>
  A whole call with no other prompt in between: the answers of the host are collected in
  a record, and \<open>cancels\<close> is the number of \<^verbatim>\<open>cancelStreaming\<close> calls that arrive while the
  stream is awaited. The result is the handler, how the call ended, and the effects.
  Once \<^verbatim>\<open>initialize\<close> has been awaited a call is never again in the state
  \<open>AwaitInitialize\<close>, and resuming after the stream always completes the call; the
  branches of \<open>awaitStream\<close> for those two cases are there for totality only.
\<close>

record PromptHost =
  created :: "error + string"
  convUuid :: string
  msgUuid :: string
  messengerError :: "error option"
  streamError :: "error option"
  catchError :: "error option"
  cancels :: nat

fun cancelTimes :: "nat \<Rightarrow> QCliStreamingHandler \<Rightarrow> QCliStreamingHandler \<times> effect list" where
  "cancelTimes 0 this = (this, [])"
| "cancelTimes (Suc n) this =
     (let (this1, es1) = cancelStreaming this;
          (this2, es2) = cancelTimes n this1
      in (this2, es1 @ es2))"

definition awaitStream ::
  "PromptHost \<Rightarrow> QCliStreamingHandler \<times> control
     \<Rightarrow> QCliStreamingHandler \<times> error option \<times> effect list"
where
  "awaitStream host st =
     (case st of
        (this, AwaitStreamResponse) \<Rightarrow>
          (let (this1, es) = cancelTimes (cancels host) this
           in case resumeAfterStreamResponse (streamError host) (catchError host) this1 of
                (this2, Completed r) \<Rightarrow> (this2, r, es)
              | (this2, _) \<Rightarrow> (this2, None, es))
      | (this, Completed r) \<Rightarrow> (this, r, [])
      | (this, AwaitInitialize) \<Rightarrow> (this, None, []))"

definition processUserPrompt ::
  "PromptHost \<Rightarrow> QCliStreamingHandler \<Rightarrow> QCliStreamingHandler \<times> error option \<times> effect list"
where
  "processUserPrompt host this =
     (case processUserPrompt_call (msgUuid host) (messengerError host) (catchError host) this of
        (this1, AwaitInitialize) \<Rightarrow>
          awaitStream host
            (resumeAfterInitialize (created host) (convUuid host) (msgUuid host)
               (messengerError host) (catchError host) this1)
      | st \<Rightarrow> awaitStream host st)"

section \<open>Properties of \<^verbatim>\<open>getRemoveLinesCommand\<close>\<close>

text \<open>
  Claim C8. \<^verbatim>\<open>getRemoveLinesCommand(pattern, hostOS, filepath)\<close> throws, and then a
  \<open>ToolkitError\<close>, exactly when the pattern contains the character \<^verbatim>\<open>/\<close>. Otherwise it
  returns \<^verbatim>\<open>sed -i /pattern/d filepath\<close> on Amazon Linux and Ubuntu, and
  \<^verbatim>\<open>sed -i '' /pattern/d filepath\<close>, with a zero-length extension argument, on macOS.
\<close>

theorem getRemoveLinesCommand_spec:
  "((\<exists>msg. getRemoveLinesCommand pattern hostOS filepath = Inl (ToolkitError msg))
      \<longleftrightarrow> CHR ''/'' \<in> set pattern) \<and>
   ((\<exists>e. getRemoveLinesCommand pattern hostOS filepath = Inl e)
      \<longleftrightarrow> CHR ''/'' \<in> set pattern) \<and>
   (CHR ''/'' \<notin> set pattern \<and> (hostOS = Amazon_Linux \<or> hostOS = Ubuntu) \<longrightarrow>
      getRemoveLinesCommand pattern hostOS filepath
        = Inr (''sed -i /'' @ pattern @ ''/d '' @ filepath)) \<and>
   (CHR ''/'' \<notin> set pattern \<and> hostOS = macOS \<longrightarrow>
      getRemoveLinesCommand pattern hostOS filepath
        = Inr (''sed -i '' @ [squote, squote] @ '' /'' @ pattern @ ''/d '' @ filepath))"
  by (auto simp: getRemoveLinesCommand_def includes_str_def isLinux_def)

theorem getRemoveLinesCommand_spec_witness:
  "CHR ''/'' \<notin> set ''#hint'' \<and>
   getRemoveLinesCommand ''#hint'' Ubuntu ''keys'' = Inr ''sed -i /#hint/d keys'' \<and>
   getRemoveLinesCommand ''#hint'' macOS ''keys''
     = Inr (''sed -i '' @ [squote, squote] @ '' /#hint/d keys'') \<and>
   CHR ''/'' \<in> set ''a/b'' \<and>
   (\<exists>msg. getRemoveLinesCommand ''a/b'' Ubuntu ''keys'' = Inl (ToolkitError msg))"
proof -
  have no_slash: "CHR ''/'' \<notin> set ''#hint''" by simp
  have slash: "CHR ''/'' \<in> set ''a/b''" by simp
  show ?thesis
    using no_slash slash
      getRemoveLinesCommand_spec [of "''#hint''" Ubuntu "''keys''"]
      getRemoveLinesCommand_spec [of "''#hint''" macOS "''keys''"]
      getRemoveLinesCommand_spec [of "''a/b''" Ubuntu "''keys''"]
    by simp
qed

section \<open>Properties of \<^verbatim>\<open>rewriteDiff\<close>\<close>

lemma split_str_not_Nil: "split_str sep s \<noteq> []"
  by (induction s) (auto split: list.splits)

lemma split_str_no_sep: "l \<in> set (split_str sep s) \<Longrightarrow> sep \<notin> set l"
  by (induction s arbitrary: l) (auto split: list.splits if_splits)

lemma split_str_no_sep_line: "sep \<notin> set l \<Longrightarrow> split_str sep l = [l]"
  by (induction l) auto

lemma split_str_append_sep:
  "sep \<notin> set l \<Longrightarrow> split_str sep (l @ sep # rest) = l # split_str sep rest"
  by (induction l) auto

lemma split_join:
  "ls \<noteq> [] \<Longrightarrow> list_all (\<lambda>l. sep \<notin> set l) ls \<Longrightarrow> split_str sep (join [sep] ls) = ls"
proof (induction "[sep]" ls rule: join.induct)
  case 1
  then show ?case by simp
next
  case (2 l)
  then show ?case by (simp add: split_str_no_sep_line)
next
  case (3 l v va)
  then show ?case by (simp add: split_str_append_sep)
qed

text \<open>Replacing every match by its own first capture group changes nothing.\<close>

lemma replace_quoted_path_id: "replace_quoted_path x s = s"
proof (induction x s rule: replace_quoted_path.induct)
  case (1 x)
  then show ?case by simp
next
  case (2 x c cs)
  show ?case
  proof (cases "prefix [dquote, x, CHR ''/''] (c # cs)")
    case True
    then obtain r where cs: "c = dquote" "cs = x # CHR ''/'' # r"
      by (auto simp: prefix_def)
    with 2(1) [OF True refl refl] show ?thesis
      by (simp add: Let_def)
  next
    case False
    then have "replace_quoted_path x (c # cs) = c # replace_quoted_path x cs"
      by (simp only: replace_quoted_path.simps if_False)
    with 2(2) [OF False] show ?thesis by simp
  qed
qed

lemma set_replace_double_backslash:
  "set (replace_double_backslash s) \<subseteq> insert CHR ''/'' (set s)"
  by (induction s rule: replace_double_backslash.induct) auto

lemma rewriteLine_eq:
  "rewriteLine l = filter (\<lambda>c. c \<noteq> dquote) (replace_double_backslash l)"
  by (simp add: rewriteLine_def replace_quoted_path_id)

lemma rewriteLine_no_newline: "newline \<notin> set l \<Longrightarrow> newline \<notin> set (rewriteLine l)"
  using set_replace_double_backslash [of l] by (auto simp: rewriteLine_eq)

lemma split_rewriteDiff:
  "split_str newline (rewriteDiff s) =
     map rewriteLine (take 5 (split_str newline s)) @ drop 5 (split_str newline s)"
proof -
  let ?ls = "split_str newline s"
  let ?out = "map rewriteLine (take 5 ?ls) @ drop 5 ?ls"
  have ne: "?out \<noteq> []"
    using split_str_not_Nil [of newline s] by (cases ?ls) auto
  have "newline \<notin> set l" if "l \<in> set ?out" for l
  proof -
    from that consider l0 where "l0 \<in> set (take 5 ?ls)" "l = rewriteLine l0"
      | "l \<in> set (drop 5 ?ls)"
      by auto
    then show ?thesis
    proof cases
      case 1
      then have "l0 \<in> set ?ls" by (meson in_set_takeD)
      then show ?thesis using 1 split_str_no_sep rewriteLine_no_newline by blast
    next
      case 2
      then have "l \<in> set ?ls" by (meson in_set_dropD)
      then show ?thesis using split_str_no_sep by blast
    qed
  qed
  then have "list_all (\<lambda>l. newline \<notin> set l) ?out"
    unfolding list_all_iff by blast
  from split_join [OF ne this] show ?thesis
    by (simp add: rewriteDiff_def Let_def)
qed

text \<open>
  The replacement of backslash pairs, described without the function that performs it. A
  line is cut into pieces, each with its replacement: a piece is either two backslashes,
  replaced by a slash, or a single character, kept. The cut is the one a scan from the
  left makes: a piece that is a single backslash is never followed by a piece that starts
  with a backslash. Every line has such a cut, and the function maps the line to the
  concatenation of the replacements.
\<close>

lemma leftmost_Cons:
  "(\<forall>k. Suc k < length (x # rest) \<and> fst ((x # rest) ! k) = [backslash] \<longrightarrow>
        fst ((x # rest) ! Suc k) \<noteq> [backslash] \<and>
        fst ((x # rest) ! Suc k) \<noteq> [backslash, backslash])
   \<longleftrightarrow>
   ((rest \<noteq> [] \<and> fst x = [backslash] \<longrightarrow>
        fst (hd rest) \<noteq> [backslash] \<and> fst (hd rest) \<noteq> [backslash, backslash]) \<and>
    (\<forall>k. Suc k < length rest \<and> fst (rest ! k) = [backslash] \<longrightarrow>
        fst (rest ! Suc k) \<noteq> [backslash] \<and>
        fst (rest ! Suc k) \<noteq> [backslash, backslash]))"
  (is "?L \<longleftrightarrow> ?H \<and> ?R")
proof
  assume l: ?L
  have ?H
  proof (intro impI)
    assume "rest \<noteq> [] \<and> fst x = [backslash]"
    then show "fst (hd rest) \<noteq> [backslash] \<and> fst (hd rest) \<noteq> [backslash, backslash]"
      using l [rule_format, of 0] by (cases rest) auto
  qed
  moreover have ?R
  proof (intro allI impI)
    fix k assume "Suc k < length rest \<and> fst (rest ! k) = [backslash]"
    then show "fst (rest ! Suc k) \<noteq> [backslash] \<and> fst (rest ! Suc k) \<noteq> [backslash, backslash]"
      using l [rule_format, of "Suc k"] by simp
  qed
  ultimately show "?H \<and> ?R" ..
next
  assume hr: "?H \<and> ?R"
  show ?L
  proof (intro allI impI)
    fix k assume a: "Suc k < length (x # rest) \<and> fst ((x # rest) ! k) = [backslash]"
    show "fst ((x # rest) ! Suc k) \<noteq> [backslash] \<and>
          fst ((x # rest) ! Suc k) \<noteq> [backslash, backslash]"
    proof (cases k)
      case 0
      with a hr show ?thesis by (cases rest) auto
    next
      case (Suc j)
      with a hr show ?thesis by simp
    qed
  qed
qed

lemma replace_double_backslash_step:
  "\<not> (c = backslash \<and> d = backslash) \<Longrightarrow>
   replace_double_backslash (c # d # ds) = c # replace_double_backslash (d # ds)"
  by simp

lemma segments_replace:
  "list_all (\<lambda>(a, b). (a = [backslash, backslash] \<and> b = ''/'') \<or> (\<exists>c. a = [c] \<and> b = [c])) segs
   \<Longrightarrow> (\<forall>k. Suc k < length segs \<and> fst (segs ! k) = [backslash] \<longrightarrow>
          fst (segs ! Suc k) \<noteq> [backslash] \<and> fst (segs ! Suc k) \<noteq> [backslash, backslash])
   \<Longrightarrow> replace_double_backslash (concat (map fst segs)) = concat (map snd segs)"
proof (induction segs)
  case Nil
  then show ?case by simp
next
  case (Cons x rest)
  from Cons.prems(2) have h: "rest \<noteq> [] \<and> fst x = [backslash] \<longrightarrow>
        fst (hd rest) \<noteq> [backslash] \<and> fst (hd rest) \<noteq> [backslash, backslash]"
    and r: "\<forall>k. Suc k < length rest \<and> fst (rest ! k) = [backslash] \<longrightarrow>
        fst (rest ! Suc k) \<noteq> [backslash] \<and> fst (rest ! Suc k) \<noteq> [backslash, backslash]"
    unfolding leftmost_Cons by blast+
  from Cons.prems(1) have pr: "list_all (\<lambda>(a, b). (a = [backslash, backslash] \<and> b = ''/'') \<or> (\<exists>c. a = [c] \<and> b = [c])) rest"
    and px: "(fst x = [backslash, backslash] \<and> snd x = ''/'') \<or> (\<exists>c. fst x = [c] \<and> snd x = [c])"
    by (auto split: prod.splits)
  from Cons.IH [OF pr r] have ih: "replace_double_backslash (concat (map fst rest)) = concat (map snd rest)" .
  from px show ?case
  proof
    assume "fst x = [backslash, backslash] \<and> snd x = ''/''"
    with ih show ?thesis by simp
  next
    assume "\<exists>c. fst x = [c] \<and> snd x = [c]"
    then obtain c where c: "fst x = [c]" "snd x = [c]" by blast
    show ?thesis
    proof (cases rest)
      case Nil
      with c show ?thesis by simp
    next
      case (Cons y ys)
      from pr Cons have py: "(fst y = [backslash, backslash] \<and> snd y = ''/'') \<or> (\<exists>d. fst y = [d] \<and> snd y = [d])"
        by (auto split: prod.splits)
      then obtain d ds where d: "concat (map fst rest) = d # ds" "d = hd (fst y)"
        using Cons by auto
      have "\<not> (c = backslash \<and> d = backslash)"
      proof
        assume cd: "c = backslash \<and> d = backslash"
        with h c Cons have "fst y \<noteq> [backslash] \<and> fst y \<noteq> [backslash, backslash]" by simp
        with py d cd show False by auto
      qed
      then have "replace_double_backslash (c # d # ds) = c # replace_double_backslash (d # ds)"
        by (rule replace_double_backslash_step)
      with ih d c show ?thesis by simp
    qed
  qed
qed

lemma segments_exist_empty:
  "\<exists>segs. [] = concat (map fst segs) \<and>
     list_all (\<lambda>(a, b). (a = [backslash, backslash] \<and> b = ''/'') \<or> (\<exists>c. a = [c] \<and> b = [c])) segs \<and>
     (\<forall>k. Suc k < length segs \<and> fst (segs ! k) = [backslash] \<longrightarrow>
          fst (segs ! Suc k) \<noteq> [backslash] \<and> fst (segs ! Suc k) \<noteq> [backslash, backslash])"
  by (rule exI [of _ "[]"]) simp

lemma segments_exist_single:
  "\<exists>segs. [v] = concat (map fst segs) \<and>
     list_all (\<lambda>(a, b). (a = [backslash, backslash] \<and> b = ''/'') \<or> (\<exists>c. a = [c] \<and> b = [c])) segs \<and>
     (\<forall>k. Suc k < length segs \<and> fst (segs ! k) = [backslash] \<longrightarrow>
          fst (segs ! Suc k) \<noteq> [backslash] \<and> fst (segs ! Suc k) \<noteq> [backslash, backslash])"
  by (rule exI [of _ "[([v], [v])]"]) simp

lemma segments_exist:
  "\<exists>segs. line = concat (map fst segs) \<and>
     list_all (\<lambda>(a, b). (a = [backslash, backslash] \<and> b = ''/'') \<or> (\<exists>c. a = [c] \<and> b = [c])) segs \<and>
     (\<forall>k. Suc k < length segs \<and> fst (segs ! k) = [backslash] \<longrightarrow>
          fst (segs ! Suc k) \<noteq> [backslash] \<and> fst (segs ! Suc k) \<noteq> [backslash, backslash])"
  (is "\<exists>segs. ?P line segs")
proof (induction line rule: replace_double_backslash.induct)
  case (1 a b cs)
  show ?case
  proof (cases "a = backslash \<and> b = backslash")
    case True
    with 1(1) obtain segs where s: "?P cs segs" by blast
    have "?P (a # b # cs) (([backslash, backslash], ''/'') # segs)"
      unfolding leftmost_Cons using s True by simp
    then show ?thesis by blast
  next
    case False
    with 1(2) obtain segs where s: "?P (b # cs) segs" by blast
    then obtain y ys where y: "segs = y # ys" by (cases segs) auto
    with s have py: "(fst y = [backslash, backslash] \<and> snd y = ''/'') \<or> (\<exists>d. fst y = [d] \<and> snd y = [d])"
      by (auto split: prod.splits)
    from s y py have b: "hd (fst y) = b" by auto
    have "a = backslash \<longrightarrow> fst y \<noteq> [backslash] \<and> fst y \<noteq> [backslash, backslash]"
      using False b by auto
    then have "?P (a # b # cs) (([a], [a]) # segs)"
      unfolding leftmost_Cons using s y by auto
    then show ?thesis by blast
  qed
qed (rule segments_exist_empty, rule segments_exist_single)

text \<open>
  Claim C10. \<^verbatim>\<open>rewriteDiff\<close> returns a string with exactly as many newline-separated
  lines as its input; every line at index 5 or more is the input line unchanged; each of
  the first five lines is rewritten as follows: the line is cut, from the left, into
  pairs of consecutive backslashes and single characters (a single backslash never
  directly before another backslash); every pair becomes one slash, every single
  character stays; then every double quote is removed. Such a cut exists for every line,
  and whichever such cut is taken gives the output line.
\<close>

theorem rewriteDiff_lines:
  "length (split_str newline (rewriteDiff s)) = length (split_str newline s) \<and>
   (5 \<le> i \<and> i < length (split_str newline s) \<longrightarrow>
        split_str newline (rewriteDiff s) ! i = split_str newline s ! i) \<and>
   (i < 5 \<and> i < length (split_str newline s) \<longrightarrow>
      (\<exists>pieces.
         split_str newline s ! i = concat (map fst pieces) \<and>
         list_all (\<lambda>(a, b). (a = [backslash, backslash] \<and> b = ''/'')
                              \<or> (\<exists>c. a = [c] \<and> b = [c])) pieces \<and>
         (\<forall>k. Suc k < length pieces \<and> fst (pieces ! k) = [backslash] \<longrightarrow>
              fst (pieces ! Suc k) \<noteq> [backslash] \<and>
              fst (pieces ! Suc k) \<noteq> [backslash, backslash]) \<and>
         split_str newline (rewriteDiff s) ! i
           = filter (\<lambda>c. c \<noteq> dquote) (concat (map snd pieces)))) \<and>
   (i < 5 \<and> i < length (split_str newline s) \<and>
    split_str newline s ! i = concat (map fst segs) \<and>
    list_all (\<lambda>(a, b). (a = [backslash, backslash] \<and> b = ''/'')
                         \<or> (\<exists>c. a = [c] \<and> b = [c])) segs \<and>
    (\<forall>k. Suc k < length segs \<and> fst (segs ! k) = [backslash] \<longrightarrow>
         fst (segs ! Suc k) \<noteq> [backslash] \<and>
         fst (segs ! Suc k) \<noteq> [backslash, backslash]) \<longrightarrow>
      split_str newline (rewriteDiff s) ! i
        = filter (\<lambda>c. c \<noteq> dquote) (concat (map snd segs)))"
proof (intro conjI impI)
  show "length (split_str newline (rewriteDiff s)) = length (split_str newline s)"
    by (simp add: split_rewriteDiff)
next
  assume "5 \<le> i \<and> i < length (split_str newline s)"
  then show "split_str newline (rewriteDiff s) ! i = split_str newline s ! i"
    by (simp add: split_rewriteDiff nth_append min_def)
next
  assume i: "i < 5 \<and> i < length (split_str newline s)"
  then have out: "split_str newline (rewriteDiff s) ! i
      = filter (\<lambda>c. c \<noteq> dquote) (replace_double_backslash (split_str newline s ! i))"
    by (simp add: split_rewriteDiff nth_append rewriteLine_eq)
  from segments_exist [of "split_str newline s ! i"] obtain pieces where
    p: "split_str newline s ! i = concat (map fst pieces)"
       "list_all (\<lambda>(a, b). (a = [backslash, backslash] \<and> b = ''/'')
                              \<or> (\<exists>c. a = [c] \<and> b = [c])) pieces"
       "\<forall>k. Suc k < length pieces \<and> fst (pieces ! k) = [backslash] \<longrightarrow>
              fst (pieces ! Suc k) \<noteq> [backslash] \<and>
              fst (pieces ! Suc k) \<noteq> [backslash, backslash]"
    by blast
  from segments_replace [OF p(2,3)] p(1) out
  have "split_str newline (rewriteDiff s) ! i
           = filter (\<lambda>c. c \<noteq> dquote) (concat (map snd pieces))"
    by simp
  with p show "\<exists>pieces.
         split_str newline s ! i = concat (map fst pieces) \<and>
         list_all (\<lambda>(a, b). (a = [backslash, backslash] \<and> b = ''/'')
                              \<or> (\<exists>c. a = [c] \<and> b = [c])) pieces \<and>
         (\<forall>k. Suc k < length pieces \<and> fst (pieces ! k) = [backslash] \<longrightarrow>
              fst (pieces ! Suc k) \<noteq> [backslash] \<and>
              fst (pieces ! Suc k) \<noteq> [backslash, backslash]) \<and>
         split_str newline (rewriteDiff s) ! i
           = filter (\<lambda>c. c \<noteq> dquote) (concat (map snd pieces))"
    by blast
next
  assume a: "i < 5 \<and> i < length (split_str newline s) \<and>
    split_str newline s ! i = concat (map fst segs) \<and>
    list_all (\<lambda>(a, b). (a = [backslash, backslash] \<and> b = ''/'')
                         \<or> (\<exists>c. a = [c] \<and> b = [c])) segs \<and>
    (\<forall>k. Suc k < length segs \<and> fst (segs ! k) = [backslash] \<longrightarrow>
         fst (segs ! Suc k) \<noteq> [backslash] \<and>
         fst (segs ! Suc k) \<noteq> [backslash, backslash])"
  then have out: "split_str newline (rewriteDiff s) ! i
      = filter (\<lambda>c. c \<noteq> dquote) (replace_double_backslash (split_str newline s ! i))"
    by (simp add: split_rewriteDiff nth_append rewriteLine_eq)
  from a have "replace_double_backslash (concat (map fst segs)) = concat (map snd segs)"
    by (intro segments_replace) blast+
  with a out show "split_str newline (rewriteDiff s) ! i
        = filter (\<lambda>c. c \<noteq> dquote) (concat (map snd segs))"
    by simp
qed

text \<open>
  On the sample diff: in the first line each of the four pairs becomes a slash, the third
  backslash of the run of three and the single backslash stay, and the quotes go; a line
  without backslashes or quotes stays as it is; two backslashes separated by a quote are
  no pair, and stay when the quote is removed; the sixth line is not rewritten.
\<close>

theorem rewriteDiff_lines_witness:
  "length (split_str newline sampleDiff) = 6 \<and>
   length (split_str newline (rewriteDiff sampleDiff)) = 6 \<and>
   split_str newline (rewriteDiff sampleDiff) ! 0
     = ''a/b//c/'' @ [backslash] @ ''d'' @ [backslash] @ ''e'' \<and>
   split_str newline (rewriteDiff sampleDiff) ! 1 = ''hello'' \<and>
   split_str newline (rewriteDiff sampleDiff) ! 2 = [backslash, backslash] \<and>
   split_str newline (rewriteDiff sampleDiff) ! 5 = [dquote, backslash, backslash]"
proof -
  have lines: "split_str newline sampleDiff
      = [[dquote, CHR ''a'', backslash, backslash, CHR ''b'', backslash, backslash, backslash,
          backslash, CHR ''c'', backslash, backslash, backslash, CHR ''d'', backslash,
          CHR ''e'', dquote],
         ''hello'', [backslash, dquote, backslash], ''3'', [], [dquote, backslash, backslash]]"
    by (simp add: sampleDiff_def)
  let ?pair = "([backslash, backslash], ''/'')"
  let ?segs0 = "[([dquote], [dquote]), (''a'', ''a''), ?pair, (''b'', ''b''), ?pair, ?pair,
                 (''c'', ''c''), ?pair, ([backslash], [backslash]), (''d'', ''d''),
                 ([backslash], [backslash]), (''e'', ''e''), ([dquote], [dquote])]"
  let ?segs1 = "[(''h'', ''h''), (''e'', ''e''), (''l'', ''l''), (''l'', ''l''), (''o'', ''o'')]"
  let ?segs2 = "[([backslash], [backslash]), ([dquote], [dquote]), ([backslash], [backslash])]"
  have len: "length (split_str newline (rewriteDiff sampleDiff)) = 6"
    using rewriteDiff_lines [of sampleDiff 0 "[]"] by (simp only: lines) simp
  have l0: "split_str newline (rewriteDiff sampleDiff) ! 0
      = ''a/b//c/'' @ [backslash] @ ''d'' @ [backslash] @ ''e''"
    using rewriteDiff_lines [of sampleDiff 0 ?segs0]
    unfolding lines leftmost_Cons by simp
  have l1: "split_str newline (rewriteDiff sampleDiff) ! 1 = ''hello''"
    using rewriteDiff_lines [of sampleDiff 1 ?segs1]
    unfolding lines leftmost_Cons by simp
  have l2: "split_str newline (rewriteDiff sampleDiff) ! 2 = [backslash, backslash]"
    using rewriteDiff_lines [of sampleDiff 2 ?segs2]
    unfolding lines leftmost_Cons by simp
  have l5: "split_str newline (rewriteDiff sampleDiff) ! 5 = [dquote, backslash, backslash]"
    using rewriteDiff_lines [of sampleDiff 5 "[]"] by (simp only: lines) simp
  from len l0 l1 l2 l5 show ?thesis by (simp only: lines) simp
qed

section \<open>Properties of the chat history\<close>

subsection \<open>The setter and the trimming step\<close>

lemma chatHistory_setter_throws: "chatHistory_setter stack this h = Inl RangeError"
  by (induction stack) auto

lemma trimHistory_long:
  "length (chatHistory this) > 100 \<Longrightarrow>
   trimHistory stack this nextMessage = Inl (RangeError, this, nextMessage)"
  by (simp add: trimHistory_def MAX_CONVERSATION_STATE_HISTORY_LEN_def
        chatHistory_setter_throws Let_def split: option.splits)

lemma trimHistory_short:
  "length (chatHistory this) \<le> 100 \<Longrightarrow>
   trimHistory stack this nextMessage = Inr (this, nextMessage)"
  by (simp add: trimHistory_def MAX_CONVERSATION_STATE_HISTORY_LEN_def)

text \<open>The trimming step returns exactly on the histories it has nothing to trim from.\<close>

lemma trimHistory_returns_iff:
  "(\<exists>r. trimHistory stack this nextMessage = Inr r) \<longleftrightarrow> length (chatHistory this) \<le> 100"
  by (cases "length (chatHistory this) \<le> 100")
     (simp_all add: trimHistory_short trimHistory_long)

lemma fixHistory_long:
  "length (chatHistory this) > 100 \<Longrightarrow>
   fixHistory stack this nextMessage = Inl (RangeError, this, nextMessage)"
  by (simp add: fixHistory_def trimHistory_long)

lemma fixHistory_short:
  "length (chatHistory this) \<le> 100 \<Longrightarrow>
   fixHistory stack this nextMessage =
     Inr (dropTrailingUserMessage this,
          addCancelledToolResults (dropTrailingUserMessage this) nextMessage)"
  by (simp add: fixHistory_def trimHistory_short Let_def)

lemma findIndex_None: "list_all (\<lambda>x. \<not> P x) xs \<Longrightarrow> findIndex P xs = None"
  by (induction xs) auto

subsection \<open>The length cap\<close>

text \<open>
  Claim C1 says that \<^verbatim>\<open>fixHistory\<close> leaves at most 100 messages, dropping the oldest ones.
  On a history of 101 messages, user and assistant messages in turn, in which the third
  message is a user message that could start the trimmed history, the assignment to
  \<^verbatim>\<open>this.chatHistory\<close> never returns: \<^verbatim>\<open>fixHistory\<close> throws \<open>RangeError\<close> whatever the
  depth of the call stack, and the session still holds all 101 messages.
\<close>

theorem fixHistory_overflow_throws:
  "fixHistory stack
     (sessionWith (concat (replicate 50 [userText ''q'', assistantText ''a''])
                   @ [userText ''q'']))
     None
   = Inl (RangeError,
          sessionWith (concat (replicate 50 [userText ''q'', assistantText ''a''])
                       @ [userText ''q'']),
          None) \<and>
   length (chatHistory
             (sessionWith (concat (replicate 50 [userText ''q'', assistantText ''a''])
                           @ [userText ''q'']))) = 101 \<and>
   findIndex isStartingUserMessage
     (drop 1 (chatHistory
                (sessionWith (concat (replicate 50 [userText ''q'', assistantText ''a''])
                              @ [userText ''q''])))) = Some 1"
proof -
  let ?h = "concat (replicate 50 [userText ''q'', assistantText ''a'']) @ [userText ''q'']"
  have len: "length (chatHistory (sessionWith ?h)) = 101"
    by (simp add: sessionWith_def length_concat sum_list_replicate)
  have "replicate 50 [userText ''q'', assistantText ''a'']
          = [userText ''q'', assistantText ''a'']
            # [userText ''q'', assistantText ''a'']
            # replicate 48 [userText ''q'', assistantText ''a'']"
    by (simp add: numeral_eq_Suc)
  then have idx: "findIndex isStartingUserMessage (drop 1 (chatHistory (sessionWith ?h))) = Some 1"
    by (simp add: sessionWith_def isStartingUserMessage_def noToolResults_def
          userText_def assistantText_def)
  have "fixHistory stack (sessionWith ?h) None = Inl (RangeError, sessionWith ?h, None)"
    by (rule fixHistory_long) (simp add: len)
  with len idx show ?thesis by simp
qed

subsection \<open>The last message\<close>

text \<open>
  Claim C2 says that after \<^verbatim>\<open>fixHistory\<close> a non-empty history ends with an assistant
  message, also when the input ends with several user messages. On a history that ends
  with two user messages \<^verbatim>\<open>fixHistory\<close> pops one message only: it returns, and the
  history it leaves ends with the user message \<open>q2\<close>.
\<close>

theorem fixHistory_keeps_trailing_user:
  "fixHistory stack
     (sessionWith [userText ''q1'', assistantText ''a1'', userText ''q2'', userText ''q3''])
     None
   = Inr (sessionWith [userText ''q1'', assistantText ''a1'', userText ''q2''], None) \<and>
   lastMessage (sessionWith [userText ''q1'', assistantText ''a1'', userText ''q2''])
     = Some (userText ''q2'')"
  by (simp add: fixHistory_short sessionWith_def dropTrailingUserMessage_def lastMessage_def
        addCancelledToolResults_def userText_def assistantText_def)

subsection \<open>The first message\<close>

text \<open>
  Claim C3 says that after \<^verbatim>\<open>fixHistory\<close> a non-empty history starts with a user message
  without tool results. A history of three messages that starts with an assistant message
  is returned as it is: no message is dropped from the front of a history of at most 100
  messages, so the first message is still the assistant message.
\<close>

theorem fixHistory_keeps_assistant_first:
  "fixHistory stack
     (sessionWith [assistantText ''hello'', userText ''q'', assistantText ''a''])
     None
   = Inr (sessionWith [assistantText ''hello'', userText ''q'', assistantText ''a''], None) \<and>
   hd (chatHistory (sessionWith [assistantText ''hello'', userText ''q'', assistantText ''a'']))
     = assistantText ''hello''"
  by (simp add: fixHistory_short sessionWith_def dropTrailingUserMessage_def lastMessage_def
        addCancelledToolResults_def userText_def assistantText_def)

subsection \<open>Cancelled tool results\<close>

text \<open>
  Claim C4. If, after the trimming step and the dropping of a trailing user message, the
  last message of the history is an assistant message with at least one tool use, and the
  next user message has a context whose tool results are absent or empty, then
  \<^verbatim>\<open>fixHistory\<close> returns and has set the tool results of the next message to one entry per
  tool use of that assistant message, in order, each with the tool use's identifier, the
  status \<^verbatim>\<open>error\<close> and the single text content \<^verbatim>\<open>Tool use was cancelled by the user\<close>.
\<close>

theorem fixHistory_cancelled_tool_results:
  assumes "trimHistory stack this nextMessage = Inr (this1, next1)"
    and "lastMessage (dropTrailingUserMessage this1) = Some (AssistantResponseMessageMember a)"
    and "toolUses a = Some uses" and "uses \<noteq> []"
    and "next1 = Some m"
    and "userInputMessageContext m = Some c"
    and "toolResults c = None \<or> toolResults c = Some []"
  shows "fixHistory stack this nextMessage =
           Inr (dropTrailingUserMessage this1,
                Some (m \<lparr> userInputMessageContext :=
                  Some (c \<lparr> toolResults :=
                    Some (map (\<lambda>u. \<lparr> ToolResult.toolUseId = ToolUse.toolUseId u,
                                     ToolResult.content =
                                       Some [\<lparr> type = ''text'',
                                               text_field = ''Tool use was cancelled by the user'' \<rparr>],
                                     status = Some ''error'' \<rparr>)
                            uses) \<rparr>) \<rparr>))"
proof -
  have "addCancelledToolResults (dropTrailingUserMessage this1) (Some m) =
          Some (m \<lparr> userInputMessageContext :=
                      Some (c \<lparr> toolResults := Some (map cancelledToolResult uses) \<rparr>) \<rparr>)"
    using assms(2,3,4,6,7)
    by (auto simp: addCancelledToolResults_def noToolResults_def)
  moreover have "cancelledToolResult =
      (\<lambda>u. \<lparr> ToolResult.toolUseId = ToolUse.toolUseId u,
              ToolResult.content =
                Some [\<lparr> type = ''text'',
                        text_field = ''Tool use was cancelled by the user'' \<rparr>],
              status = Some ''error'' \<rparr>)"
    by (simp add: fun_eq_iff cancelledToolResult_def)
  ultimately show ?thesis
    using assms(1,5) by (simp add: fixHistory_def Let_def)
qed

theorem fixHistory_cancelled_tool_results_witness:
  "fixHistory 7
     (sessionWith
        [userText ''q'',
         AssistantResponseMessageMember
           \<lparr> messageId = None, content = Some ''running tools'',
             toolUses = Some [\<lparr> ToolUse.toolUseId = Some ''t1'', name = Some ''fsRead'', input = None \<rparr>,
                              \<lparr> ToolUse.toolUseId = Some ''t2'', name = Some ''bash'', input = None \<rparr>] \<rparr>,
         userText ''dropped''])
     (Some \<lparr> content = Some ''never mind'',
             userInputMessageContext =
               Some \<lparr> editorState = Some ''ed'', toolResults = Some [], tools = Some [''fsRead''] \<rparr>,
             userIntent = None \<rparr>)
   = Inr (sessionWith
            [userText ''q'',
             AssistantResponseMessageMember
               \<lparr> messageId = None, content = Some ''running tools'',
                 toolUses = Some [\<lparr> ToolUse.toolUseId = Some ''t1'', name = Some ''fsRead'', input = None \<rparr>,
                                  \<lparr> ToolUse.toolUseId = Some ''t2'', name = Some ''bash'', input = None \<rparr>] \<rparr>],
          Some \<lparr> content = Some ''never mind'',
                 userInputMessageContext =
                   Some \<lparr> editorState = Some ''ed'',
                          toolResults =
                            Some [\<lparr> toolUseId = Some ''t1'',
                                    content =
                                      Some [\<lparr> type = ''text'',
                                              text_field = ''Tool use was cancelled by the user'' \<rparr>],
                                    status = Some ''error'' \<rparr>,
                                  \<lparr> toolUseId = Some ''t2'',
                                    content =
                                      Some [\<lparr> type = ''text'',
                                              text_field = ''Tool use was cancelled by the user'' \<rparr>],
                                    status = Some ''error'' \<rparr>],
                          tools = Some [''fsRead''] \<rparr>,
                 userIntent = None \<rparr>)"
proof -
  let ?a = "\<lparr> messageId = None, content = Some ''running tools'',
             toolUses = Some [\<lparr> ToolUse.toolUseId = Some ''t1'', name = Some ''fsRead'', input = None \<rparr>,
                              \<lparr> ToolUse.toolUseId = Some ''t2'', name = Some ''bash'', input = None \<rparr>] \<rparr>"
  let ?s = "sessionWith [userText ''q'', AssistantResponseMessageMember ?a, userText ''dropped'']"
  let ?c = "\<lparr> editorState = Some ''ed'', toolResults = Some [], tools = Some [''fsRead''] \<rparr>"
  let ?m = "\<lparr> content = Some ''never mind'', userInputMessageContext = Some ?c,
             userIntent = None \<rparr>"
  have h1: "trimHistory 7 ?s (Some ?m) = Inr (?s, Some ?m)"
    by (simp add: trimHistory_def sessionWith_def MAX_CONVERSATION_STATE_HISTORY_LEN_def)
  have h2: "lastMessage (dropTrailingUserMessage ?s) = Some (AssistantResponseMessageMember ?a)"
    by (simp add: dropTrailingUserMessage_def lastMessage_def sessionWith_def userText_def)
  have h3: "toolUses ?a = Some [\<lparr> ToolUse.toolUseId = Some ''t1'', name = Some ''fsRead'', input = None \<rparr>,
                              \<lparr> ToolUse.toolUseId = Some ''t2'', name = Some ''bash'', input = None \<rparr>]"
    by simp
  have h4: "[\<lparr> ToolUse.toolUseId = Some ''t1'', name = Some ''fsRead'', input = None \<rparr>,
             \<lparr> ToolUse.toolUseId = Some ''t2'', name = Some ''bash'', input = None \<rparr>] \<noteq> []"
    by simp
  have h6: "userInputMessageContext ?m = Some ?c" by simp
  have h7: "toolResults ?c = None \<or> toolResults ?c = Some []" by simp
  show ?thesis
    using fixHistory_cancelled_tool_results [OF h1 h2 h3 h4 refl h6 h7]
    by (simp add: dropTrailingUserMessage_def lastMessage_def sessionWith_def userText_def)
qed

subsection \<open>Clearing an overflowed history\<close>

text \<open>
  Claim C5 says that a history of more than 100 messages with no user message to restart
  from is cleared, and that tool results of the next message are abandoned. On a user
  message followed by 100 assistant messages, with a next message that carries one tool
  result, no restart message is found, the assignment \<^verbatim>\<open>this.chatHistory = []\<close> never
  returns, and \<^verbatim>\<open>fixHistory\<close> throws \<open>RangeError\<close>: the history keeps its 101 messages and
  the next message keeps its content and its tool result.
\<close>

theorem fixHistory_clear_throws:
  "fixHistory stack
     (sessionWith (userText ''q'' # replicate 100 (assistantText ''a'')))
     (Some \<lparr> content = Some ''result'',
             userInputMessageContext =
               Some \<lparr> editorState = None,
                      toolResults = Some [\<lparr> toolUseId = Some ''t1'', content = None,
                                            status = Some ''success'' \<rparr>],
                      tools = None \<rparr>,
             userIntent = None \<rparr>)
   = Inl (RangeError,
          sessionWith (userText ''q'' # replicate 100 (assistantText ''a'')),
          Some \<lparr> content = Some ''result'',
                 userInputMessageContext =
                   Some \<lparr> editorState = None,
                          toolResults = Some [\<lparr> toolUseId = Some ''t1'', content = None,
                                                status = Some ''success'' \<rparr>],
                          tools = None \<rparr>,
                 userIntent = None \<rparr>) \<and>
   length (chatHistory (sessionWith (userText ''q'' # replicate 100 (assistantText ''a''))))
     = 101 \<and>
   findIndex isStartingUserMessage
     (drop 1 (chatHistory (sessionWith (userText ''q'' # replicate 100 (assistantText ''a'')))))
     = None"
proof -
  let ?s = "sessionWith (userText ''q'' # replicate 100 (assistantText ''a''))"
  have len: "length (chatHistory ?s) = 101"
    by (simp add: sessionWith_def)
  have idx: "findIndex isStartingUserMessage (drop 1 (chatHistory ?s)) = None"
    by (rule findIndex_None)
       (simp add: sessionWith_def list_all_iff isStartingUserMessage_def assistantText_def)
  have "length (chatHistory ?s) > 100" using len by simp
  from fixHistory_long [OF this] len idx show ?thesis by simp
qed

subsection \<open>Pushing to the history\<close>

text \<open>
  Claim C9, as amended. \<^verbatim>\<open>pushToChatHistory\<close> leaves the session unchanged when called
  with undefined; otherwise it appends exactly one message to the end of the history and
  changes nothing else. Assistant messages (and messages of an unknown kind) are stored as
  they are. A user input message with a context is stored with the \<open>tools\<close> of the context
  set to undefined, every other field of the context and of the message unchanged. A user
  input message without a context is stored with a context all of whose fields are
  undefined, every other field of the message unchanged.
\<close>

theorem pushToChatHistory_frame:
  "pushToChatHistory this None = this \<and>
   pushToChatHistory this (Some (AssistantResponseMessageMember a))
     = this \<lparr> chatHistory := chatHistory this @ [AssistantResponseMessageMember a] \<rparr> \<and>
   pushToChatHistory this (Some UnknownMember)
     = this \<lparr> chatHistory := chatHistory this @ [UnknownMember] \<rparr> \<and>
   pushToChatHistory this
       (Some (UserInputMessageMember (u \<lparr> userInputMessageContext := Some c \<rparr>)))
     = this \<lparr> chatHistory := chatHistory this
              @ [UserInputMessageMember
                   (u \<lparr> userInputMessageContext := Some (c \<lparr> tools := None \<rparr>) \<rparr>)] \<rparr> \<and>
   pushToChatHistory this
       (Some (UserInputMessageMember (u \<lparr> userInputMessageContext := None \<rparr>)))
     = this \<lparr> chatHistory := chatHistory this
              @ [UserInputMessageMember
                   (u \<lparr> userInputMessageContext :=
                          Some \<lparr> editorState = None, toolResults = None, tools = None \<rparr> \<rparr>)] \<rparr>"
  by (simp add: pushToChatHistory_def formatChatHistoryMessage_def emptyContext_def)

text \<open>
  The claim as first stated fails on a user input message without a context: the stored
  copy differs from the message in its field \<open>userInputMessageContext\<close>, which was
  undefined and is now an object.
\<close>

theorem pushToChatHistory_context_counterexample:
  "chatHistory
     (pushToChatHistory (sessionWith [])
        (Some (UserInputMessageMember
                 \<lparr> content = Some ''hi'', userInputMessageContext = None,
                   userIntent = None \<rparr>)))
     = [UserInputMessageMember
          \<lparr> content = Some ''hi'',
            userInputMessageContext =
              Some \<lparr> editorState = None, toolResults = None, tools = None \<rparr>,
            userIntent = None \<rparr>] \<and>
   chatHistory
     (pushToChatHistory (sessionWith [])
        (Some (UserInputMessageMember
                 \<lparr> content = Some ''hi'', userInputMessageContext = None,
                   userIntent = None \<rparr>)))
     \<noteq> [UserInputMessageMember
          \<lparr> content = Some ''hi'', userInputMessageContext = None, userIntent = None \<rparr>]"
  by (simp add: pushToChatHistory_def formatChatHistoryMessage_def emptyContext_def
        sessionWith_def)


section \<open>Properties of the size limits\<close>

text \<open>
  Claim C7. \<^verbatim>\<open>processTextFile\<close> throws \<open>ProjectSizeExceededError\<close>, and throws at all,
  exactly when the accumulated total already exceeds the project-scan payload limit or
  the total plus the byte size of the file is strictly above it; the throw leaves the
  total size, the line count and the picked source files (and the zip stream and the
  language counter) as they were, and otherwise all three counters are updated. For the
  scopes \<open>FILE_AUTO\<close> and \<open>FILE_ON_DEMAND\<close>, once the document text and the file size have
  been read, \<^verbatim>\<open>zipFile\<close> throws \<open>FileSizeExceededError\<close> exactly when the accumulated size
  after adding the file is strictly greater than the file-scan payload limit; at that
  throw the file has already been counted. In any scope \<^verbatim>\<open>zipFile\<close> throws that error
  only when \<^verbatim>\<open>reachSizeLimit\<close> holds of the size after adding the file.
\<close>

theorem size_limit_errors:
  "(processTextFile limits languageOf this zipStream languageCount fsPath fileContent zipEntryPath
      = Inl (ProjectSizeExceededError, this, zipStream, languageCount)
    \<longleftrightarrow> totalSize this > projectScanPayloadSizeLimitBytes limits
        \<or> totalSize this + length fileContent > projectScanPayloadSizeLimitBytes limits) \<and>
   ((\<exists>e st. processTextFile limits languageOf this zipStream languageCount fsPath fileContent
              zipEntryPath = Inl (e, st))
    \<longleftrightarrow> totalSize this > projectScanPayloadSizeLimitBytes limits
        \<or> totalSize this + length fileContent > projectScanPayloadSizeLimitBytes limits) \<and>
   (\<not> (totalSize this > projectScanPayloadSizeLimitBytes limits
        \<or> totalSize this + length fileContent > projectScanPayloadSizeLimitBytes limits) \<longrightarrow>
    processTextFile limits languageOf this zipStream languageCount fsPath fileContent zipEntryPath
      = Inr (this \<lparr> pickedSourceFiles := insert fsPath (pickedSourceFiles this),
                     totalSize := totalSize this + length fileContent,
                     totalLines := totalLines this + length (split_newlineRegex fileContent) \<rparr>,
             zipStream @ [(zipEntryPath, fileContent)],
             incrementCountForLanguage languageOf fsPath languageCount)) \<and>
   ((scope = FILE_AUTO \<or> scope = FILE_ON_DEMAND) \<and> getTextContent host = Inr fileText
      \<and> statSize host = Inr sz \<longrightarrow>
    ((\<exists>st. zipFile limits host this (Some fsPath) scope = Inl (FileSizeExceededError, st))
       \<longleftrightarrow> totalSize this + sz > fileScanPayloadSizeLimitBytes limits) \<and>
    (totalSize this + sz > fileScanPayloadSizeLimitBytes limits \<longrightarrow>
       zipFile limits host this (Some fsPath) scope
         = Inl (FileSizeExceededError,
                this \<lparr> pickedSourceFiles := insert fsPath (pickedSourceFiles this),
                       totalSize := totalSize this + sz,
                       totalLines := totalLines this + length (split_newlineRegex fileText) \<rparr>))) \<and>
   ((\<exists>st. zipFile limits host this uri scope = Inl (FileSizeExceededError, st)) \<longrightarrow>
      (\<exists>p t n. uri = Some p \<and> getTextContent host = Inr t
         \<and> statSize host = Inr n \<and> reachSizeLimit limits (totalSize this + n) scope))"
proof (intro conjI impI)
  show "(processTextFile limits languageOf this zipStream languageCount fsPath fileContent zipEntryPath
      = Inl (ProjectSizeExceededError, this, zipStream, languageCount)
    \<longleftrightarrow> totalSize this > projectScanPayloadSizeLimitBytes limits
        \<or> totalSize this + length fileContent > projectScanPayloadSizeLimitBytes limits)"
    by (simp add: processTextFile_def reachSizeLimit_def willReachSizeLimit_def
          getProjectScanPayloadSizeLimitInBytes_def Let_def)
next
  show "((\<exists>e st. processTextFile limits languageOf this zipStream languageCount fsPath fileContent
              zipEntryPath = Inl (e, st))
    \<longleftrightarrow> totalSize this > projectScanPayloadSizeLimitBytes limits
        \<or> totalSize this + length fileContent > projectScanPayloadSizeLimitBytes limits)"
    by (simp add: processTextFile_def reachSizeLimit_def willReachSizeLimit_def
          getProjectScanPayloadSizeLimitInBytes_def Let_def)
next
  assume "\<not> (totalSize this > projectScanPayloadSizeLimitBytes limits
        \<or> totalSize this + length fileContent > projectScanPayloadSizeLimitBytes limits)"
  then show "processTextFile limits languageOf this zipStream languageCount fsPath fileContent zipEntryPath
      = Inr (this \<lparr> pickedSourceFiles := insert fsPath (pickedSourceFiles this),
                     totalSize := totalSize this + length fileContent,
                     totalLines := totalLines this + length (split_newlineRegex fileContent) \<rparr>,
             zipStream @ [(zipEntryPath, fileContent)],
             incrementCountForLanguage languageOf fsPath languageCount)"
    by (simp add: processTextFile_def reachSizeLimit_def willReachSizeLimit_def
          getProjectScanPayloadSizeLimitInBytes_def Let_def)
next
  assume "(scope = FILE_AUTO \<or> scope = FILE_ON_DEMAND) \<and> getTextContent host = Inr fileText
      \<and> statSize host = Inr sz"
  then show "(\<exists>st. zipFile limits host this (Some fsPath) scope = Inl (FileSizeExceededError, st))
       \<longleftrightarrow> totalSize this + sz > fileScanPayloadSizeLimitBytes limits"
    by (auto simp: zipFile_def reachSizeLimit_def getFileScanPayloadSizeLimitInBytes_def
          Let_def split: prod.splits option.splits)
next
  assume "(scope = FILE_AUTO \<or> scope = FILE_ON_DEMAND) \<and> getTextContent host = Inr fileText
      \<and> statSize host = Inr sz"
    and "totalSize this + sz > fileScanPayloadSizeLimitBytes limits"
  then show "zipFile limits host this (Some fsPath) scope
         = Inl (FileSizeExceededError,
                this \<lparr> pickedSourceFiles := insert fsPath (pickedSourceFiles this),
                       totalSize := totalSize this + sz,
                       totalLines := totalLines this + length (split_newlineRegex fileText) \<rparr>)"
    by (auto simp: zipFile_def reachSizeLimit_def getFileScanPayloadSizeLimitInBytes_def
          Let_def)
next
  assume "\<exists>st. zipFile limits host this uri scope = Inl (FileSizeExceededError, st)"
  then show "\<exists>p t n. uri = Some p \<and> getTextContent host = Inr t
         \<and> statSize host = Inr n \<and> reachSizeLimit limits (totalSize this + n) scope"
    by (auto simp: zipFile_def Let_def split: option.splits sum.splits prod.splits if_splits)
qed

theorem size_limit_errors_witness:
  "processTextFile \<lparr> fileScanPayloadSizeLimitBytes = 10, projectScanPayloadSizeLimitBytes = 20 \<rparr>
     (\<lambda>p. Some ''typescript'')
     \<lparr> pickedSourceFiles = {''a.ts''}, totalSize = 15, totalLines = 3, zipDir = [] \<rparr>
     [] Map.empty ''b.ts'' ''123456'' ''proj/b.ts''
   = Inl (ProjectSizeExceededError,
          \<lparr> pickedSourceFiles = {''a.ts''}, totalSize = 15, totalLines = 3, zipDir = [] \<rparr>,
          [], Map.empty) \<and>
   fst (projr
     (processTextFile \<lparr> fileScanPayloadSizeLimitBytes = 10, projectScanPayloadSizeLimitBytes = 20 \<rparr>
        (\<lambda>p. Some ''typescript'')
        \<lparr> pickedSourceFiles = {''a.ts''}, totalSize = 15, totalLines = 3, zipDir = [] \<rparr>
        [] Map.empty ''b.ts'' (''12'' @ [newline] @ ''45'') ''proj/b.ts''))
   = \<lparr> pickedSourceFiles = {''b.ts'', ''a.ts''}, totalSize = 20, totalLines = 5, zipDir = [] \<rparr> \<and>
   zipFile \<lparr> fileScanPayloadSizeLimitBytes = 10, projectScanPayloadSizeLimitBytes = 20 \<rparr>
     \<lparr> getTextContent = Inr (''12'' @ [newline] @ ''45''), inWorkspaceFolder = True,
       zipEntryPathOf = ''proj/b.ts'', normalizedZipEntryPath = ''proj/b.ts'',
       statSize = Inr 5, freshZipDir = (\<lambda>u. ''tmp''), codeScanZipExt = ''.zip'',
       finalizeToFile = None \<rparr>
     \<lparr> pickedSourceFiles = {''a.ts''}, totalSize = 6, totalLines = 3, zipDir = [] \<rparr>
     (Some ''b.ts'') FILE_AUTO
   = Inl (FileSizeExceededError,
          \<lparr> pickedSourceFiles = {''b.ts'', ''a.ts''}, totalSize = 11, totalLines = 5,
            zipDir = [] \<rparr>)"
proof -
  let ?limits = "\<lparr> fileScanPayloadSizeLimitBytes = 10, projectScanPayloadSizeLimitBytes = 20 \<rparr>"
  let ?zu = "\<lparr> pickedSourceFiles = {''a.ts''}, totalSize = 15, totalLines = 3, zipDir = [] \<rparr>"
  let ?zu6 = "\<lparr> pickedSourceFiles = {''a.ts''}, totalSize = 6, totalLines = 3, zipDir = [] \<rparr>"
  let ?host = "\<lparr> getTextContent = Inr (''12'' @ [newline] @ ''45''), inWorkspaceFolder = True,
       zipEntryPathOf = ''proj/b.ts'', normalizedZipEntryPath = ''proj/b.ts'',
       statSize = Inr 5, freshZipDir = (\<lambda>u. ''tmp''), codeScanZipExt = ''.zip'',
       finalizeToFile = None \<rparr>"
  have over: "totalSize ?zu > projectScanPayloadSizeLimitBytes ?limits
        \<or> totalSize ?zu + length ''123456'' > projectScanPayloadSizeLimitBytes ?limits"
    by simp
  have fits: "\<not> (totalSize ?zu > projectScanPayloadSizeLimitBytes ?limits
        \<or> totalSize ?zu + length (''12'' @ [newline] @ ''45'')
              > projectScanPayloadSizeLimitBytes ?limits)"
    by simp
  have isfile: "(FILE_AUTO = FILE_AUTO \<or> FILE_AUTO = FILE_ON_DEMAND)
      \<and> getTextContent ?host = Inr (''12'' @ [newline] @ ''45'') \<and> statSize ?host = Inr 5"
    by simp
  have big: "totalSize ?zu6 + 5 > fileScanPayloadSizeLimitBytes ?limits"
    by simp
  have a: "processTextFile ?limits (\<lambda>p. Some ''typescript'') ?zu [] Map.empty
             ''b.ts'' ''123456'' ''proj/b.ts''
           = Inl (ProjectSizeExceededError, ?zu, [], Map.empty)"
    using over
      size_limit_errors [of ?limits "\<lambda>p. Some ''typescript''" ?zu "[]" Map.empty
        "''b.ts''" "''123456''" "''proj/b.ts''"]
    by blast
  have b: "fst (projr (processTextFile ?limits (\<lambda>p. Some ''typescript'') ?zu [] Map.empty
             ''b.ts'' (''12'' @ [newline] @ ''45'') ''proj/b.ts''))
           = \<lparr> pickedSourceFiles = {''b.ts'', ''a.ts''}, totalSize = 20, totalLines = 5,
               zipDir = [] \<rparr>"
  proof -
    from fits
      size_limit_errors [of ?limits "\<lambda>p. Some ''typescript''" ?zu "[]" Map.empty
        "''b.ts''" "''12'' @ [newline] @ ''45''" "''proj/b.ts''"]
    have "processTextFile ?limits (\<lambda>p. Some ''typescript'') ?zu [] Map.empty
             ''b.ts'' (''12'' @ [newline] @ ''45'') ''proj/b.ts''
          = Inr (?zu \<lparr> pickedSourceFiles := insert ''b.ts'' (pickedSourceFiles ?zu),
                     totalSize := totalSize ?zu + length (''12'' @ [newline] @ ''45''),
                     totalLines := totalLines ?zu
                       + length (split_newlineRegex (''12'' @ [newline] @ ''45'')) \<rparr>,
             [] @ [(''proj/b.ts'', ''12'' @ [newline] @ ''45'')],
             incrementCountForLanguage (\<lambda>p. Some ''typescript'') ''b.ts'' Map.empty)"
      by blast
    then show ?thesis by simp
  qed
  have c: "zipFile ?limits ?host ?zu6 (Some ''b.ts'') FILE_AUTO
           = Inl (FileSizeExceededError,
                  \<lparr> pickedSourceFiles = {''b.ts'', ''a.ts''}, totalSize = 11, totalLines = 5,
                    zipDir = [] \<rparr>)"
  proof -
    from isfile big
      size_limit_errors [of ?limits _ ?zu6 _ _ "''b.ts''" _ _ FILE_AUTO ?host
        "''12'' @ [newline] @ ''45''" 5]
    have "zipFile ?limits ?host ?zu6 (Some ''b.ts'') FILE_AUTO
         = Inl (FileSizeExceededError,
                ?zu6 \<lparr> pickedSourceFiles := insert ''b.ts'' (pickedSourceFiles ?zu6),
                       totalSize := totalSize ?zu6 + 5,
                       totalLines := totalLines ?zu6
                         + length (split_newlineRegex (''12'' @ [newline] @ ''45'')) \<rparr>)"
      by blast
    then show ?thesis by simp
  qed
  from a b c show ?thesis by (simp only: simp_thms)
qed


section \<open>Properties of the streaming handler\<close>

lemma enterTry_cases:
  "enterTry uuid me ce this = (this', k) \<Longrightarrow>
   (k = AwaitStreamResponse \<and> isStreaming this'
      \<and> abortController this' = Some \<lparr> aborted = False \<rparr>)
   \<or> ((\<exists>r. k = Completed r) \<and> \<not> isStreaming this' \<and> abortController this' = None)"
  by (auto simp: enterTry_def leaveTry_def Let_def split: option.splits if_splits)

lemma awaitStream_idle:
  "k \<noteq> AwaitInitialize \<Longrightarrow>
   (\<forall>r. k = Completed r \<longrightarrow> \<not> isStreaming this \<and> abortController this = None) \<Longrightarrow>
   \<not> isStreaming (fst (awaitStream host (this, k))) \<and>
   abortController (fst (awaitStream host (this, k))) = None"
  by (cases k)
     (auto simp: awaitStream_def resumeAfterStreamResponse_def leaveTry_def Let_def
           split: prod.splits)

text \<open>A call that enters the \<^verbatim>\<open>try\<close> block ends with both fields reset.\<close>

lemma processUserPrompt_try_idle:
  assumes "streamingClient this \<noteq> None \<or> (\<exists>client. created host = Inr client)"
  shows "\<not> isStreaming (fst (processUserPrompt host this)) \<and>
         abortController (fst (processUserPrompt host this)) = None"
proof (cases "streamingClient this")
  case None
  with assms obtain client where c: "created host = Inr client" by auto
  obtain this' k where e:
    "enterTry (msgUuid host) (messengerError host) (catchError host)
       (this \<lparr> streamingClient := Some client, conversationId := convUuid host \<rparr>) = (this', k)"
    by (cases "enterTry (msgUuid host) (messengerError host) (catchError host)
                 (this \<lparr> streamingClient := Some client, conversationId := convUuid host \<rparr>)")
  from enterTry_cases [OF e] have "k \<noteq> AwaitInitialize"
    and "\<forall>r. k = Completed r \<longrightarrow> \<not> isStreaming this' \<and> abortController this' = None"
    by auto
  from awaitStream_idle [OF this, of host] None c e show ?thesis
    by (simp add: processUserPrompt_def processUserPrompt_call_def resumeAfterInitialize_def
          initialize_def)
next
  case (Some cl)
  obtain this' k where e:
    "enterTry (msgUuid host) (messengerError host) (catchError host) this = (this', k)"
    by (cases "enterTry (msgUuid host) (messengerError host) (catchError host) this")
  from enterTry_cases [OF e] have k: "k \<noteq> AwaitInitialize"
    and "\<forall>r. k = Completed r \<longrightarrow> \<not> isStreaming this' \<and> abortController this' = None"
    by auto
  from awaitStream_idle [OF this, of host] Some e k show ?thesis
    by (cases k) (simp_all add: processUserPrompt_def processUserPrompt_call_def)
qed

text \<open>A call whose \<^verbatim>\<open>initialize\<close> fails ends before the \<^verbatim>\<open>try\<close> block and changes nothing.\<close>

lemma processUserPrompt_init_fails:
  "streamingClient this = None \<Longrightarrow> created host = Inl e \<Longrightarrow>
   processUserPrompt host this = (this, Some e, [])"
  by (simp add: processUserPrompt_def processUserPrompt_call_def resumeAfterInitialize_def
        initialize_def awaitStream_def)

lemma cancelStreaming_effects:
  "snd (cancelStreaming this)
     = (if isStreaming this \<and> abortController this \<noteq> None then [Abort] else [])"
  by (simp add: cancelStreaming_def split: option.splits)

lemma cancelStreaming_noop:
  "\<not> (isStreaming this \<and> abortController this \<noteq> None) \<Longrightarrow> cancelStreaming this = (this, [])"
  by (auto simp: cancelStreaming_def split: option.splits)

text \<open>
  Claim C6, as amended. Whenever a call of \<^verbatim>\<open>processUserPrompt\<close> that has entered its
  \<^verbatim>\<open>try\<close> block completes, normally or after an error, \<open>isStreaming\<close> is false and
  \<open>abortController\<close> is undefined: this holds of the step that resumes after the stream,
  of the step that enters the block when it completes at once, and of a whole call made
  with a streaming client present or created. A call whose \<^verbatim>\<open>initialize\<close> fails completes
  with that error and leaves the handler as it was, so a handler that was idle before a
  call with no other prompt in flight is idle after it. \<^verbatim>\<open>cancelStreaming\<close> invokes
  \<^verbatim>\<open>abort\<close> exactly when \<open>isStreaming\<close> is true and \<open>abortController\<close> is defined, and is a
  no-op otherwise, so \<^verbatim>\<open>abort\<close> is never invoked while the handler is idle.
\<close>

theorem handler_cancellation_state:
  "(\<not> isStreaming (fst (resumeAfterStreamResponse se ce this)) \<and>
    abortController (fst (resumeAfterStreamResponse se ce this)) = None \<and>
    (\<exists>r. snd (resumeAfterStreamResponse se ce this) = Completed r)) \<and>
   (snd (enterTry uuid me ce this) = Completed r \<longrightarrow>
      \<not> isStreaming (fst (enterTry uuid me ce this)) \<and>
      abortController (fst (enterTry uuid me ce this)) = None) \<and>
   (streamingClient this \<noteq> None \<or> created host = Inr client \<longrightarrow>
      \<not> isStreaming (fst (processUserPrompt host this)) \<and>
      abortController (fst (processUserPrompt host this)) = None) \<and>
   (streamingClient this = None \<and> created host = Inl e \<longrightarrow>
      processUserPrompt host this = (this, Some e, [])) \<and>
   resumeAfterInitialize (Inl e) cu uuid me ce this = (this, Completed (Some e)) \<and>
   (\<not> isStreaming this \<and> abortController this = None \<longrightarrow>
      \<not> isStreaming (fst (processUserPrompt host this)) \<and>
      abortController (fst (processUserPrompt host this)) = None) \<and>
   snd (cancelStreaming this)
     = (if isStreaming this \<and> abortController this \<noteq> None then [Abort] else []) \<and>
   (\<not> (isStreaming this \<and> abortController this \<noteq> None) \<longrightarrow>
      cancelStreaming this = (this, [])) \<and>
   (\<not> isStreaming this \<longrightarrow> cancelStreaming this = (this, []))"
proof (intro conjI impI)
  show "\<not> isStreaming (fst (resumeAfterStreamResponse se ce this))"
    and "abortController (fst (resumeAfterStreamResponse se ce this)) = None"
    and "\<exists>r. snd (resumeAfterStreamResponse se ce this) = Completed r"
    by (simp_all add: resumeAfterStreamResponse_def leaveTry_def)
next
  assume c: "snd (enterTry uuid me ce this) = Completed r"
  obtain this' k where e: "enterTry uuid me ce this = (this', k)"
    by (cases "enterTry uuid me ce this")
  from enterTry_cases [OF e] c e
  show "\<not> isStreaming (fst (enterTry uuid me ce this))"
    and "abortController (fst (enterTry uuid me ce this)) = None"
    by auto
next
  assume "streamingClient this \<noteq> None \<or> created host = Inr client"
  then have "streamingClient this \<noteq> None \<or> (\<exists>client. created host = Inr client)"
    by blast
  from processUserPrompt_try_idle [OF this]
  show "\<not> isStreaming (fst (processUserPrompt host this))"
    and "abortController (fst (processUserPrompt host this)) = None"
    by simp_all
next
  assume "streamingClient this = None \<and> created host = Inl e"
  then show "processUserPrompt host this = (this, Some e, [])"
    by (simp add: processUserPrompt_init_fails)
next
  show "resumeAfterInitialize (Inl e) cu uuid me ce this = (this, Completed (Some e))"
    by (simp add: resumeAfterInitialize_def initialize_def)
next
  assume idle: "\<not> isStreaming this \<and> abortController this = None"
  have "\<not> isStreaming (fst (processUserPrompt host this)) \<and>
        abortController (fst (processUserPrompt host this)) = None"
  proof (cases "streamingClient this \<noteq> None \<or> (\<exists>client. created host = Inr client)")
    case True
    then show ?thesis by (rule processUserPrompt_try_idle)
  next
    case False
    then obtain e' where "streamingClient this = None" "created host = Inl e'"
      by (cases "created host") auto
    from processUserPrompt_init_fails [OF this] idle show ?thesis by simp
  qed
  then show "\<not> isStreaming (fst (processUserPrompt host this))"
    and "abortController (fst (processUserPrompt host this)) = None"
    by simp_all
next
  show "snd (cancelStreaming this)
     = (if isStreaming this \<and> abortController this \<noteq> None then [Abort] else [])"
    by (rule cancelStreaming_effects)
next
  assume "\<not> (isStreaming this \<and> abortController this \<noteq> None)"
  then show "cancelStreaming this = (this, [])"
    by (rule cancelStreaming_noop)
next
  assume "\<not> isStreaming this"
  then show "cancelStreaming this = (this, [])"
    by (simp add: cancelStreaming_noop)
qed

text \<open>
  A whole call on a fresh handler, the stream failing after two calls of
  \<^verbatim>\<open>cancelStreaming\<close> arrived: both calls invoke \<^verbatim>\<open>abort\<close>, the error is reported and not
  thrown again, and the handler is idle at the end. On the idle handler \<^verbatim>\<open>cancelStreaming\<close>
  does nothing.
\<close>

theorem handler_cancellation_state_witness:
  "processUserPrompt
     \<lparr> created = Inr ''client'', convUuid = ''c1'', msgUuid = ''m1'', messengerError = None,
       streamError = Some (IOError ''aborted''), catchError = None, cancels = 2 \<rparr>
     newHandler
   = (\<lparr> streamingClient = Some ''client'', conversationId = ''c1'', handlerMessageId = ''m1'',
        isStreaming = False, abortController = None \<rparr>,
      None, [Abort, Abort]) \<and>
   cancelStreaming
     \<lparr> streamingClient = Some ''client'', conversationId = ''c1'', handlerMessageId = ''m1'',
       isStreaming = False, abortController = None \<rparr>
   = (\<lparr> streamingClient = Some ''client'', conversationId = ''c1'', handlerMessageId = ''m1'',
        isStreaming = False, abortController = None \<rparr>, []) \<and>
   snd (cancelStreaming
          \<lparr> streamingClient = Some ''client'', conversationId = ''c1'',
            handlerMessageId = ''m1'', isStreaming = True,
            abortController = Some \<lparr> aborted = False \<rparr> \<rparr>) = [Abort] \<and>
   processUserPrompt
     \<lparr> created = Inl (IOError ''no connection''), convUuid = ''c1'', msgUuid = ''m1'',
       messengerError = None, streamError = None, catchError = None, cancels = 0 \<rparr>
     newHandler
   = (newHandler, Some (IOError ''no connection''), [])"
proof -
  let ?host = "\<lparr> created = Inr ''client'', convUuid = ''c1'', msgUuid = ''m1'',
       messengerError = None, streamError = Some (IOError ''aborted''), catchError = None,
       cancels = 2 \<rparr>"
  let ?bad = "\<lparr> created = Inl (IOError ''no connection''), convUuid = ''c1'',
       msgUuid = ''m1'', messengerError = None, streamError = None, catchError = None,
       cancels = 0 \<rparr>"
  let ?idle = "\<lparr> streamingClient = Some ''client'', conversationId = ''c1'',
       handlerMessageId = ''m1'', isStreaming = False, abortController = None \<rparr>"
  let ?busy = "\<lparr> streamingClient = Some ''client'', conversationId = ''c1'',
       handlerMessageId = ''m1'', isStreaming = True,
       abortController = Some \<lparr> aborted = False \<rparr> \<rparr>"
  have run: "processUserPrompt ?host newHandler = (?idle, None, [Abort, Abort])"
    by (simp add: processUserPrompt_def processUserPrompt_call_def resumeAfterInitialize_def
          initialize_def enterTry_def awaitStream_def resumeAfterStreamResponse_def
          leaveTry_def cancelStreaming_def newHandler_def Let_def numeral_2_eq_2)
  have h1: "streamingClient newHandler \<noteq> None \<or> created ?host = Inr ''client''" by simp
  have h2: "\<not> isStreaming ?idle" by simp
  have h3: "streamingClient newHandler = None \<and> created ?bad = Inl (IOError ''no connection'')"
    by (simp add: newHandler_def)
  have idle_after: "\<not> isStreaming (fst (processUserPrompt ?host newHandler)) \<and>
      abortController (fst (processUserPrompt ?host newHandler)) = None"
    using h1 handler_cancellation_state [of _ _ newHandler _ _ _ ?host "''client''"] by blast
  have noop: "cancelStreaming ?idle = (?idle, [])"
    using h2 handler_cancellation_state [of _ _ ?idle] by blast
  have ab: "snd (cancelStreaming ?busy) = [Abort]"
    using handler_cancellation_state [of _ _ ?busy] by simp
  have fails: "processUserPrompt ?bad newHandler = (newHandler, Some (IOError ''no connection''), [])"
    using h3 handler_cancellation_state [of _ _ newHandler _ _ _ ?bad _ "IOError ''no connection''"]
    by blast
  from run idle_after noop ab fails show ?thesis by (simp only: simp_thms)
qed

text \<open>
  The claim as first stated fails when two prompts overlap. Two calls start on a fresh
  handler and both await \<^verbatim>\<open>initialize\<close>. The first is resumed with a client, enters the
  \<^verbatim>\<open>try\<close> block and awaits the stream: \<open>isStreaming\<close> is true. The second is resumed with a
  failed \<^verbatim>\<open>initialize\<close>: it completes with the error, and \<open>isStreaming\<close> is still true and
  \<open>abortController\<close> still defined.
\<close>

theorem processUserPrompt_overlap_counterexample:
  "snd (processUserPrompt_call ''m1'' None None newHandler) = AwaitInitialize \<and>
   snd (processUserPrompt_call ''m2'' None None
          (fst (processUserPrompt_call ''m1'' None None newHandler))) = AwaitInitialize \<and>
   resumeAfterInitialize (Inr ''client'') ''c1'' ''m1'' None None
     (fst (processUserPrompt_call ''m2'' None None
        (fst (processUserPrompt_call ''m1'' None None newHandler))))
   = (\<lparr> streamingClient = Some ''client'', conversationId = ''c1'', handlerMessageId = ''m1'',
        isStreaming = True, abortController = Some \<lparr> aborted = False \<rparr> \<rparr>,
      AwaitStreamResponse) \<and>
   resumeAfterInitialize (Inl (IOError ''no connection'')) ''c2'' ''m2'' None None
     \<lparr> streamingClient = Some ''client'', conversationId = ''c1'', handlerMessageId = ''m1'',
       isStreaming = True, abortController = Some \<lparr> aborted = False \<rparr> \<rparr>
   = (\<lparr> streamingClient = Some ''client'', conversationId = ''c1'', handlerMessageId = ''m1'',
        isStreaming = True, abortController = Some \<lparr> aborted = False \<rparr> \<rparr>,
      Completed (Some (IOError ''no connection'')))"
  by (simp add: resumeAfterInitialize_def initialize_def processUserPrompt_call_def
        newHandler_def enterTry_def Let_def)


end
